theory Spec2Isabelle
  imports Main "HOL-Library.Sublist"
begin

section \<open>A shallow embedding of search.go\<close>

text \<open>
  The program is a single Go file: it builds a Google query for LinkedIn profiles, fetches
  result pages with a retry loop, extracts one \<open>Candidate\<close> per result container,
  re-fetches every profile, and writes the candidates to a CSV file.

  Strings are Go strings, that is byte sequences: \<open>string\<close> is a list of 8-bit
  characters. Go's \<open>int\<close> is taken at 64 bits; the only place where its range matters is
  \<open>strconv.Atoi\<close>, which checks it. What lies outside the file (the network, the random
  source, the HTML parser, the file system) is a parameter of the model, the record
  \<open>world\<close> below; what the program prints, logs and sleeps is recorded in a trace.
\<close>

subsection \<open>Constants (search.go, lines 20-36)\<close>

definition googleSearchURLBase :: string where
  "googleSearchURLBase = ''https://www.google.com/search''"

definition maxPagesToScrape :: nat where
  "maxPagesToScrape = 2"

definition retryAttempts :: nat where
  "retryAttempts = 3"

text \<open>Durations are counted in seconds.\<close>

definition retryDelay :: nat where
  "retryDelay = 5"

definition outputFilename :: string where
  "outputFilename = ''linkedin_candidates.csv''"

subsection \<open>The Candidate struct and the errors\<close>

record Candidate =
  Name :: string
  Email :: string
  Phone :: string
  ProfileURL :: string
  Experience :: int

text \<open>
  Go errors are values. Each constructor is one \<open>fmt.Errorf\<close> of the file (a wrapped
  error is the constructor's argument), \<open>NumErrorSyntax\<close> and \<open>NumErrorRange\<close> are the two
  errors of \<open>strconv.Atoi\<close>, and \<open>External\<close> is an error reported by a library at the
  boundary (\<open>net/http\<close>, \<open>os\<close>, the HTML parser).
\<close>

datatype error =
    External string
  | NumErrorSyntax string
  | NumErrorRange string
  | ErrorParsingExperienceYears error
  | ExperienceNotFound string
  | FailedToCreateRequest error
  | FailedToFetchProfile error
  | CaptchaOrRateLimit
  | ProfileRequestFailed int
  | FailedToParseProfileHTML error
  | FailedToCreateCSVFile error
  | FailedToWriteHeaderRow error
  | FailedToWriteDataRow error

subsection \<open>Character classes of the patterns\<close>

definition isDigit :: "char \<Rightarrow> bool" where
  "isDigit c = (c \<in> set ''0123456789'')"

definition isLetter :: "char \<Rightarrow> bool" where
  "isLetter c = (c \<in> set ''abcdefghijklmnopqrstuvwxyzABCDEFGHIJKLMNOPQRSTUVWXYZ'')"

text \<open>The class \<open>\s\<close> of Go's regexp syntax: tab, newline, form feed, carriage return, space.\<close>

definition isSpaceRE :: "char \<Rightarrow> bool" where
  "isSpaceRE c = (c \<in> set [CHR 0x09, CHR 0x0A, CHR 0x0C, CHR 0x0D, CHR '' ''])"

text \<open>\<open>[a-zA-Z0-9._%+-]\<close>, \<open>[a-zA-Z0-9.-]\<close> and \<open>[-.\s]\<close>.\<close>

definition isEmailLocal :: "char \<Rightarrow> bool" where
  "isEmailLocal c = (isLetter c \<or> isDigit c \<or> c \<in> set ''._%+-'')"

definition isEmailDomain :: "char \<Rightarrow> bool" where
  "isEmailDomain c = (isLetter c \<or> isDigit c \<or> c \<in> set ''.-'')"

definition isPhoneSep :: "char \<Rightarrow> bool" where
  "isPhoneSep c = (c \<in> set ''-.'' \<or> isSpaceRE c)"

text \<open>\<open>[^&?]\<close>: every byte but the two query delimiters.\<close>

definition notDelim :: "char \<Rightarrow> bool" where
  "notDelim c = (c \<noteq> CHR ''&'' \<and> c \<noteq> CHR ''?'')"

subsection \<open>The regular expressions\<close>

text \<open>
  Go's \<open>regexp\<close> returns the leftmost match, and among the matches that start there the
  one a backtracking matcher finds first. A compiled pattern is modelled by its match
  anchored at the start of a text: \<open>None\<close> when the pattern does not match there, else the
  matched text and the text of capture group 1 (the whole match when the pattern has no
  group). \<open>findLeftmost\<close> tries every start position from left to right, the end of the
  text included.
\<close>

fun findLeftmost :: "(string \<Rightarrow> 'a option) \<Rightarrow> string \<Rightarrow> 'a option" where
  "findLeftmost m [] = m []"
| "findLeftmost m (c # cs) =
     (case m (c # cs) of Some r \<Rightarrow> Some r | None \<Rightarrow> findLeftmost m cs)"

text \<open>
  \<open>experienceRegex = (\d+)\s+year[s]?\<close>. At a given start the digits and the white space
  are the longest runs: a shorter run would be followed by a digit where white space must
  stand, or by white space where \<open>year\<close> must stand.
\<close>

definition experienceRegex :: "string \<Rightarrow> (string \<times> string) option" where
  "experienceRegex s =
     (let digits = takeWhile isDigit s;
          r1 = dropWhile isDigit s;
          spaces = takeWhile isSpaceRE r1;
          r2 = dropWhile isSpaceRE r1
      in if digits \<noteq> [] \<and> spaces \<noteq> [] \<and> prefix ''year'' r2
         then Some (digits @ spaces @ ''year'' @ (if prefix ''s'' (drop 4 r2) then ''s'' else []),
                    digits)
         else None)"

text \<open>
  The pattern of line 69, \<open>(https:\/\/www\.linkedin\.com\/in\/[^&?]+)\<close>: the literal base,
  then the longest non-empty run of bytes other than \<open>&\<close> and \<open>?\<close>.
\<close>

definition linkedinBase :: string where
  "linkedinBase = ''https://www.linkedin.com/in/''"

definition profileLinkRegex :: "string \<Rightarrow> (string \<times> string) option" where
  "profileLinkRegex s =
     (let tail = takeWhile notDelim (drop (length linkedinBase) s)
      in if prefix linkedinBase s \<and> tail \<noteq> []
         then Some (linkedinBase @ tail, linkedinBase @ tail)
         else None)"

text \<open>
  \<open>emailRegex = [a-zA-Z0-9._%+-]+@[a-zA-Z0-9.-]+\.[a-zA-Z]{2,}\<close>. The local part is the
  longest run (it must end before \<open>@\<close>). The domain is greedy too, and gives characters
  back until a dot followed by two letters or more is found: \<open>emailDomainSplit k domain\<close>
  tries the split points \<open>k\<close>, \<open>k - 1\<close>, ..., \<open>1\<close> of the run \<open>domain\<close> of domain characters, the
  dot standing at index \<open>k\<close>.
\<close>

fun emailDomainSplit :: "nat \<Rightarrow> string \<Rightarrow> string option" where
  "emailDomainSplit 0 domain = None"
| "emailDomainSplit (Suc k) domain =
     (let letters = takeWhile isLetter (drop (Suc (Suc k)) domain)
      in if Suc k < length domain \<and> domain ! Suc k = CHR ''.'' \<and> 2 \<le> length letters
         then Some (take (Suc k) domain @ ''.'' @ letters)
         else emailDomainSplit k domain)"

definition emailRegex :: "string \<Rightarrow> (string \<times> string) option" where
  "emailRegex s =
     (let local = takeWhile isEmailLocal s;
          r1 = dropWhile isEmailLocal s
      in if local \<noteq> [] \<and> prefix ''@'' r1
         then (let domain = takeWhile isEmailDomain (drop 1 r1)
               in case emailDomainSplit (length domain - 1) domain of
                    None \<Rightarrow> None
                  | Some d \<Rightarrow> Some (local @ ''@'' @ d, local @ ''@'' @ d))
         else None)"

text \<open>
  \<open>phoneRegex = \(?\d{3}\)?[-.\s]?\d{3}[-.\s]?\d{4}\<close>. Every optional character is
  taken when it is there: what follows it in the pattern cannot match it.
\<close>

definition optionalChar :: "(char \<Rightarrow> bool) \<Rightarrow> string \<Rightarrow> string \<times> string" where
  "optionalChar p s = (case s of [] \<Rightarrow> ([], []) | c # cs \<Rightarrow> if p c then ([c], cs) else ([], s))"

definition digitsExactly :: "nat \<Rightarrow> string \<Rightarrow> (string \<times> string) option" where
  "digitsExactly n s =
     (if n \<le> length s \<and> list_all isDigit (take n s) then Some (take n s, drop n s) else None)"

definition phoneRegex :: "string \<Rightarrow> (string \<times> string) option" where
  "phoneRegex s =
     (let (lp, s1) = optionalChar (\<lambda>c. c = CHR ''('') s in
      case digitsExactly 3 s1 of None \<Rightarrow> None | Some (d1, s2) \<Rightarrow>
      let (rp, s3) = optionalChar (\<lambda>c. c = CHR '')'') s2;
          (sep1, s4) = optionalChar isPhoneSep s3 in
      case digitsExactly 3 s4 of None \<Rightarrow> None | Some (d2, s5) \<Rightarrow>
      let (sep2, s6) = optionalChar isPhoneSep s5 in
      case digitsExactly 4 s6 of None \<Rightarrow> None | Some (d3, s7) \<Rightarrow>
        Some (lp @ d1 @ rp @ sep1 @ d2 @ sep2 @ d3, lp @ d1 @ rp @ sep1 @ d2 @ sep2 @ d3))"

text \<open>
  \<open>re.FindStringSubmatch\<close> gives \<open>nil\<close> or the slice of the match and its groups, so
  \<open>len(match) > 1\<close> holds exactly when the pattern (which has one group) matched, and
  \<open>match[1]\<close> is the second component. \<open>re.FindString\<close> gives the match, or the empty string.
\<close>

definition FindStringSubmatch :: "(string \<Rightarrow> (string \<times> string) option) \<Rightarrow> string \<Rightarrow> (string \<times> string) option" where
  "FindStringSubmatch re s = findLeftmost re s"

definition FindString :: "(string \<Rightarrow> (string \<times> string) option) \<Rightarrow> string \<Rightarrow> string" where
  "FindString re s = (case findLeftmost re s of None \<Rightarrow> [] | Some m \<Rightarrow> fst m)"

text \<open>extractRegex (lines 150-153).\<close>

definition extractRegex :: "string \<Rightarrow> (string \<Rightarrow> (string \<times> string) option) \<Rightarrow> string" where
  "extractRegex text regex = FindString regex text"

subsection \<open>strconv.Atoi, strconv.Itoa and parseExperience\<close>

definition digitVal :: "char \<Rightarrow> int" where
  "digitVal c = of_char c - 48"

definition decimal :: "string \<Rightarrow> int" where
  "decimal ds = foldl (\<lambda>n c. 10 * n + digitVal c) 0 ds"

definition maxInt :: int where
  "maxInt = 2 ^ 63 - 1"

definition minInt :: int where
  "minInt = - (2 ^ 63)"

text \<open>
  \<open>strconv.Atoi\<close>: an optional sign, then one decimal digit or more; a text of another
  shape is a syntax error with value 0, a number outside the range of \<open>int\<close> is a range
  error with the nearest bound as value.
\<close>

definition Atoi :: "string \<Rightarrow> int \<times> error option" where
  "Atoi s =
     (let neg = prefix ''-'' s;
          ds = (if prefix ''-'' s \<or> prefix ''+'' s then drop 1 s else s)
      in if ds \<noteq> [] \<and> list_all isDigit ds
         then (if neg
               then (if decimal ds \<le> - minInt then (- decimal ds, None)
                     else (minInt, Some (NumErrorRange s)))
               else (if decimal ds \<le> maxInt then (decimal ds, None)
                     else (maxInt, Some (NumErrorRange s))))
         else (0, Some (NumErrorSyntax s)))"

text \<open>parseExperience (lines 156-167).\<close>

definition parseExperience :: "string \<Rightarrow> int \<times> error option" where
  "parseExperience experienceStr =
     (case FindStringSubmatch experienceRegex experienceStr of
        Some match \<Rightarrow>
          (case Atoi (snd match) of
             (years, Some err) \<Rightarrow> (0, Some (ErrorParsingExperienceYears err))
           | (years, None) \<Rightarrow> (years, None))
      | None \<Rightarrow> (0, Some (ExperienceNotFound experienceStr)))"

subsection \<open>strings.TrimSpace and unicode.IsSpace\<close>

text \<open>
  \<open>strings.TrimSpace\<close> removes the leading and the trailing white space runes, as
  \<open>unicode.IsSpace\<close> defines them: six ASCII characters, and the runes U+0085, U+00A0,
  U+1680, U+2000 to U+200A, U+2028, U+2029, U+202F, U+205F and U+3000, which are two or
  three bytes of UTF-8 each.
\<close>

definition isSpaceASCII :: "char \<Rightarrow> bool" where
  "isSpaceASCII c = (c \<in> set [CHR 0x09, CHR 0x0A, CHR 0x0B, CHR 0x0C, CHR 0x0D, CHR '' ''])"

definition isSpace2 :: "char \<Rightarrow> char \<Rightarrow> bool" where
  "isSpace2 a b = (a = CHR 0xC2 \<and> b \<in> set [CHR 0x85, CHR 0xA0])"

definition isSpace3 :: "char \<Rightarrow> char \<Rightarrow> char \<Rightarrow> bool" where
  "isSpace3 a b c =
     ((a = CHR 0xE1 \<and> b = CHR 0x9A \<and> c = CHR 0x80) \<or>
      (a = CHR 0xE2 \<and> b = CHR 0x80 \<and>
         c \<in> set [CHR 0x80, CHR 0x81, CHR 0x82, CHR 0x83, CHR 0x84, CHR 0x85, CHR 0x86,
                   CHR 0x87, CHR 0x88, CHR 0x89, CHR 0x8A, CHR 0xA8, CHR 0xA9, CHR 0xAF]) \<or>
      (a = CHR 0xE2 \<and> b = CHR 0x81 \<and> c = CHR 0x9F) \<or>
      (a = CHR 0xE3 \<and> b = CHR 0x80 \<and> c = CHR 0x80))"

text \<open>
  \<open>trimRunes two three s\<close> drops white space runes from the front of \<open>s\<close>; \<open>two\<close> and
  \<open>three\<close> recognise the encodings of two and of three bytes. From the back the same
  function runs on the reversed text, with the bytes of a rune in reverse order.
\<close>

fun trimRunes :: "(char \<Rightarrow> char \<Rightarrow> bool) \<Rightarrow> (char \<Rightarrow> char \<Rightarrow> char \<Rightarrow> bool) \<Rightarrow> string \<Rightarrow> string" where
  "trimRunes two three [] = []"
| "trimRunes two three [a] = (if isSpaceASCII a then [] else [a])"
| "trimRunes two three [a, b] =
     (if isSpaceASCII a then trimRunes two three [b]
      else if two a b then [] else [a, b])"
| "trimRunes two three (a # b # c # s) =
     (if isSpaceASCII a then trimRunes two three (b # c # s)
      else if two a b then trimRunes two three (c # s)
      else if three a b c then trimRunes two three s
      else a # b # c # s)"

definition TrimSpace :: "string \<Rightarrow> string" where
  "TrimSpace s =
     rev (trimRunes (\<lambda>a b. isSpace2 b a) (\<lambda>a b c. isSpace3 c b a)
            (rev (trimRunes isSpace2 isSpace3 s)))"

subsection \<open>Documents as goquery sees them\<close>

text \<open>
  The HTML parser and the selector engine are the library \<open>goquery\<close>. A parsed document
  is modelled by what the selectors of the program find in it:
  \<^item> \<open>resultContainers\<close>: the matches of \<open>.tF2Cxc\<close>, in document order; for each container
    the \<open>href\<close> attributes of the elements matching \<open>profileLinkSelector\<close> (every such
    element has one, the selector asks for it), and the text of the elements matching
    \<open>nameSelector\<close> and \<open>googleSnippetSelector\<close>;
  \<^item> \<open>topCardTitle\<close>: the text of the elements matching \<open>.top-card-layout__title\<close>;
  \<^item> \<open>renderedHtml\<close>: the text \<open>doc.Html()\<close> returns (the program drops its error).
\<close>

record container =
  profileLinkHrefs :: "string list"
  nameTexts :: "string list"
  snippetTexts :: "string list"

record document =
  resultContainers :: "container list"
  topCardTitle :: "string list"
  renderedHtml :: string

text \<open>
  \<open>Selection.Attr\<close> reads the attribute of the first element of a selection and reports
  whether there is one; \<open>Selection.Text\<close> joins the text of all elements of the selection
  (the empty string for an empty selection).
\<close>

definition Attr :: "string list \<Rightarrow> string option" where
  "Attr hrefs = (case hrefs of [] \<Rightarrow> None | h # _ \<Rightarrow> Some h)"

definition Text :: "string list \<Rightarrow> string" where
  "Text nodes = concat nodes"

subsection \<open>scrapeGoogleSearchResults (lines 58-97)\<close>

text \<open>
  \<open>eachContainer\<close> is the closure passed to \<open>Each\<close>, with the slice \<open>candidates\<close> it appends
  to made explicit; a \<open>return\<close> of the closure leaves the slice as it is.
\<close>

definition eachContainer :: "Candidate list \<Rightarrow> container \<Rightarrow> Candidate list" where
  "eachContainer candidates s =
     (case Attr (profileLinkHrefs s) of
        None \<Rightarrow> candidates
      | Some profileLink \<Rightarrow>
          (case FindStringSubmatch profileLinkRegex profileLink of
             None \<Rightarrow> candidates
           | Some match \<Rightarrow>
               (let name = TrimSpace (Text (nameTexts s));
                    snippet = Text (snippetTexts s);
                    email = extractRegex snippet emailRegex;
                    phone = extractRegex snippet phoneRegex;
                    experience = fst (parseExperience snippet)
                in candidates @
                   [\<lparr>Name = name, Email = email, Phone = phone,
                     ProfileURL = snd match, Experience = experience\<rparr>])))"

definition scrapeGoogleSearchResults :: "document \<Rightarrow> Candidate list \<times> error option" where
  "scrapeGoogleSearchResults doc = (foldl eachContainer [] (resultContainers doc), None)"

subsection \<open>The world outside the program, and the trace of its effects\<close>

record request =
  URL :: string
  UserAgent :: string
  Referer :: string

record response =
  StatusCode :: int
  Body :: string
  BodyClosed :: bool

text \<open>What \<open>client.Do\<close> returns: an error and no response, or a response and no error.\<close>

datatype outcome = TransportError error | Responded int string

text \<open>
  \<^item> \<open>randSource w k\<close>: the \<open>k\<close>-th value the global source of \<open>math/rand\<close> gives (the
    program seeds it with the clock);
  \<^item> \<open>clientDo w k req\<close>: what the \<open>k\<close>-th call of \<open>client.Do\<close> returns for the request;
  \<^item> \<open>NewRequest w url\<close>: the error of \<open>http.NewRequest("GET", url, nil)\<close>, if any;
  \<^item> \<open>NewDocumentFromReader w resp\<close>: what goquery makes of the body of a response;
  \<^item> \<open>osCreate w name\<close>: the error of \<open>os.Create(name)\<close>, if any;
  \<^item> \<open>writerWrite w name k\<close>: the error that the \<open>k\<close>-th call of \<open>writer.Write\<close> returns
    for the writer on the file \<open>name\<close>, if any (the header row is call 0);
  \<^item> \<open>writerFlush w name\<close>: the error that the deferred \<open>writer.Flush\<close> meets, if any;
  \<^item> \<open>accepted w name\<close>: the number of bytes the file has taken when a write or the
    flush fails.
\<close>

record world =
  randSource :: "nat \<Rightarrow> nat"
  clientDo :: "nat \<Rightarrow> request \<Rightarrow> outcome"
  NewRequest :: "string \<Rightarrow> error option"
  NewDocumentFromReader :: "response \<Rightarrow> error + document"
  osCreate :: "string \<Rightarrow> error option"
  writerWrite :: "string \<Rightarrow> nat \<Rightarrow> error option"
  writerFlush :: "string \<Rightarrow> error option"
  accepted :: "string \<Rightarrow> nat"

text \<open>
  One constructor per message of the program, carrying the values it formats:
  \<open>Print\<close> is \<open>fmt.Printf\<close>, \<open>Log\<close> is \<open>log.Printf\<close>, \<open>log.Println\<close> or \<open>log.Fatalf\<close>.
\<close>

datatype message =
    SearchingGoogle string
  | ScrapingGooglePage nat
  | WaitingBeforePage nat nat
  | ErrorCreatingRequest error
  | ErrorFetchingPage error nat
  | ReceivedStatusCode int nat
  | FailedToFetchPage nat error
  | ErrorParsingPage nat error
  | ErrorScrapingCandidates nat error
  | ScrapingDetails nat string
  | ErrorScrapingProfile string error
  | EncounteredCaptcha
  | NoCandidatesFound
  | ErrorWritingCSV error
  | SuccessfullyWrote nat string

datatype event = Print message | Log message | Sleep nat | Do request

record state =
  draws :: nat
  sent :: nat
  trace :: "event list"
  files :: "string \<Rightarrow> string option"

definition emit :: "event \<Rightarrow> state \<Rightarrow> state" where
  "emit e st = st\<lparr>trace := trace st @ [e]\<rparr>"

text \<open>\<open>rand.Intn(n)\<close>, for the positive \<open>n\<close> the program passes.\<close>

definition Intn :: "world \<Rightarrow> nat \<Rightarrow> state \<Rightarrow> nat \<times> state" where
  "Intn w n st = (randSource w (draws st) mod n, st\<lparr>draws := draws st + 1\<rparr>)"

text \<open>\<open>time.Duration(rand.Intn(10)+5) * time.Second\<close> (lines 105 and 263).\<close>

definition randomDelay :: "world \<Rightarrow> state \<Rightarrow> nat \<times> state" where
  "randomDelay w st = (let (r, st1) = Intn w 10 st in (r + 5, st1))"

text \<open>
  getHeaders (lines 190-199) returns the headers with a random User-Agent.
  getProxyClient (lines 171-187) always returns the default client with a timeout of ten
  seconds, since \<open>proxyList\<close> is empty; the client is therefore left out of the model, and
  a timeout is one of the transport errors of \<open>clientDo\<close>.
\<close>

definition userAgents :: "string list" where
  "userAgents =
     [''Mozilla/5.0 (Windows NT 10.0; Win64; x64) AppleWebKit/537.36 (KHTML, like Gecko) Chrome/91.0.4472.124 Safari/537.36'',
      ''Mozilla/5.0 (Macintosh; Intel Mac OS X 10_15_7) AppleWebKit/605.1.15 (KHTML, like Gecko) Version/15.0 Safari/605.1.15'',
      ''Mozilla/5.0 (Windows NT 10.0; Win64; x64; rv:89.0) Gecko/20100101 Firefox/89.0'']"

definition getHeaders :: "world \<Rightarrow> state \<Rightarrow> string \<times> state" where
  "getHeaders w st = (let (i, st1) = Intn w (length userAgents) st in (userAgents ! i, st1))"

definition Do_request :: "world \<Rightarrow> request \<Rightarrow> state \<Rightarrow> outcome \<times> state" where
  "Do_request w req st = (clientDo w (sent st) req, emit (Do req) (st\<lparr>sent := sent st + 1\<rparr>))"

subsection \<open>The retry loop of a page fetch (main, lines 272-294)\<close>

text \<open>
  The loop has the variables \<open>resp\<close> and \<open>err\<close> of the enclosing block as its state. One
  pass of the body either ends in \<open>continue\<close> or in \<open>break\<close>. A response whose body the
  program closed is kept with \<open>BodyClosed\<close> set. After a transport error \<open>resp\<close> is taken
  to be \<open>nil\<close>; the program never reads \<open>resp\<close> while \<open>err\<close> is set, so the choice does not
  show. The \<open>Do\<close> events of the trace record the requests sent.
\<close>

datatype control = Continue | Break

definition googleReferer :: string where
  "googleReferer = ''https://www.google.com/''"

definition fetchAttempt ::
  "world \<Rightarrow> string \<Rightarrow> response option \<times> error option \<Rightarrow> state
     \<Rightarrow> control \<times> (response option \<times> error option) \<times> state" where
  "fetchAttempt w pageURL vars st =
     (case NewRequest w pageURL of
        Some reqErr \<Rightarrow> (Continue, vars, emit (Log (ErrorCreatingRequest reqErr)) st)
      | None \<Rightarrow>
          (let (agent, st1) = getHeaders w st;
               req = \<lparr>URL = pageURL, UserAgent = agent, Referer = googleReferer\<rparr>;
               (out, st2) = Do_request w req st1
           in case out of
                TransportError e \<Rightarrow>
                  (Continue, (None, Some e),
                   emit (Sleep retryDelay) (emit (Log (ErrorFetchingPage e retryDelay)) st2))
              | Responded code body \<Rightarrow>
                  (if code \<noteq> 200
                   then (Continue,
                         (Some \<lparr>StatusCode = code, Body = body, BodyClosed = True\<rparr>, None),
                         emit (Sleep retryDelay)
                           (emit (Log (ReceivedStatusCode code retryDelay)) st2))
                   else (Break,
                         (Some \<lparr>StatusCode = code, Body = body, BodyClosed = False\<rparr>, None),
                         st2))))"

text \<open>
  \<open>fetchLoop w pageURL n\<close> runs the \<open>n\<close> passes that remain; the loop variable \<open>attempt\<close>
  only counts them, from 0 to \<open>retryAttempts\<close>.
\<close>

fun fetchLoop ::
  "world \<Rightarrow> string \<Rightarrow> nat \<Rightarrow> response option \<times> error option \<Rightarrow> state
     \<Rightarrow> (response option \<times> error option) \<times> state" where
  "fetchLoop w pageURL 0 vars st = (vars, st)"
| "fetchLoop w pageURL (Suc n) vars st =
     (case fetchAttempt w pageURL vars st of
        (Break, vars', st') \<Rightarrow> (vars', st')
      | (Continue, vars', st') \<Rightarrow> fetchLoop w pageURL n vars' st')"

definition fetchPage ::
  "world \<Rightarrow> string \<Rightarrow> state \<Rightarrow> (response option \<times> error option) \<times> state" where
  "fetchPage w pageURL st = fetchLoop w pageURL retryAttempts (None, None) st"

subsection \<open>scrapeProfileDetails (lines 100-147)\<close>

definition publicName :: "document \<Rightarrow> string" where
  "publicName doc = TrimSpace (Text (topCardTitle doc))"

definition scrapeProfileDetails ::
  "world \<Rightarrow> string \<Rightarrow> state \<Rightarrow> (Candidate \<times> error option) \<times> state" where
  "scrapeProfileDetails w profileURL st =
     (let candidate = \<lparr>Name = [], Email = [], Phone = [], ProfileURL = profileURL, Experience = 0\<rparr>;
          (delay, st1) = randomDelay w st;
          st2 = emit (Sleep delay) st1
      in case NewRequest w profileURL of
           Some err \<Rightarrow> ((candidate, Some (FailedToCreateRequest err)), st2)
         | None \<Rightarrow>
             (let (agent, st3) = getHeaders w st2;
                  req = \<lparr>URL = profileURL, UserAgent = agent, Referer = googleReferer\<rparr>;
                  (out, st4) = Do_request w req st3
              in case out of
                   TransportError err \<Rightarrow> ((candidate, Some (FailedToFetchProfile err)), st4)
                 | Responded code body \<Rightarrow>
                     (if code \<noteq> 200
                      then (if code = 429 \<or> code = 302
                            then ((candidate, Some CaptchaOrRateLimit),
                                  emit (Log EncounteredCaptcha) st4)
                            else ((candidate, Some (ProfileRequestFailed code)), st4))
                      else (case NewDocumentFromReader w
                                   \<lparr>StatusCode = code, Body = body, BodyClosed = False\<rparr> of
                              Inl err \<Rightarrow> ((candidate, Some (FailedToParseProfileHTML err)), st4)
                            | Inr doc \<Rightarrow>
                                ((candidate\<lparr>Name := publicName doc,
                                            Email := extractRegex (renderedHtml doc) emailRegex,
                                            Phone := extractRegex (renderedHtml doc) phoneRegex\<rparr>,
                                  None), st4)))))"

subsection \<open>The enrichment loop (main, lines 314-326)\<close>

text \<open>
  One pass of \<open>for i, cand := range candidates\<close>: \<open>cand\<close> is a copy of the \<open>i\<close>-th element,
  and the value the pass stores back in \<open>candidates[i]\<close> is returned.
\<close>

definition enrichCandidate :: "world \<Rightarrow> nat \<Rightarrow> Candidate \<Rightarrow> state \<Rightarrow> Candidate \<times> state" where
  "enrichCandidate w i cand st =
     (let st1 = emit (Print (ScrapingDetails (i + 1) (ProfileURL cand))) st;
          ((detailedCandidate, err), st2) = scrapeProfileDetails w (ProfileURL cand) st1
      in case err of
           Some e \<Rightarrow> (cand, emit (Log (ErrorScrapingProfile (ProfileURL cand) e)) st2)
         | None \<Rightarrow>
             (cand\<lparr>Name := Name detailedCandidate,
                    Email := Email detailedCandidate,
                    Phone := Phone detailedCandidate\<rparr>, st2))"

fun enrichCandidates :: "world \<Rightarrow> nat \<Rightarrow> Candidate list \<Rightarrow> state \<Rightarrow> Candidate list \<times> state" where
  "enrichCandidates w i [] st = ([], st)"
| "enrichCandidates w i (cand # rest) st =
     (let (cand', st1) = enrichCandidate w i cand st;
          (rest', st2) = enrichCandidates w (i + 1) rest st1
      in (cand' # rest', st2))"

subsection \<open>strconv.Itoa\<close>

definition digitChar :: "nat \<Rightarrow> char" where
  "digitChar d = ''0123456789'' ! d"

fun natDigits :: "nat \<Rightarrow> string" where
  "natDigits n =
     (if n < 10 then [digitChar n] else natDigits (n div 10) @ [digitChar (n mod 10)])"

definition Itoa :: "int \<Rightarrow> string" where
  "Itoa i = (if i < 0 then ''-'' @ natDigits (nat (- i)) else natDigits (nat i))"

subsection \<open>One page of the driver (main, lines 254-329)\<close>

text \<open>
  \<open>scrapePage\<close> is the body of the loop over \<open>page\<close>, with \<open>allCandidates\<close> passed in and
  returned. Its result is \<open>None\<close> when the program stops in a panic: after a loop in
  which every pass failed to create the request, \<open>resp\<close> is \<open>nil\<close> and \<open>err\<close> is \<open>nil\<close>, and
  \<open>resp.Body\<close> dereferences the nil pointer.
\<close>

definition pageURLOf :: "string \<Rightarrow> nat \<Rightarrow> string" where
  "pageURLOf searchURL page =
     (if page > 0 then searchURL @ ''&start='' @ Itoa (int (page * 10)) else searchURL)"

definition scrapePage ::
  "world \<Rightarrow> string \<Rightarrow> nat \<Rightarrow> Candidate list \<Rightarrow> state \<Rightarrow> Candidate list option \<times> state" where
  "scrapePage w searchURL page allCandidates st =
     (let st1 = emit (Print (ScrapingGooglePage (page + 1))) st;
          pageURL = pageURLOf searchURL page;
          (delay, st2) = randomDelay w st1;
          st3 = emit (Sleep delay) (emit (Print (WaitingBeforePage delay (page + 1))) st2);
          ((resp, err), st4) = fetchPage w pageURL st3
      in case err of
           Some e \<Rightarrow> (Some allCandidates, emit (Log (FailedToFetchPage (page + 1) e)) st4)
         | None \<Rightarrow>
             (case resp of
                None \<Rightarrow> (None, st4)
              | Some r \<Rightarrow>
                  (case NewDocumentFromReader w r of
                     Inl e \<Rightarrow> (Some allCandidates, emit (Log (ErrorParsingPage (page + 1) e)) st4)
                   | Inr doc \<Rightarrow>
                       (case scrapeGoogleSearchResults doc of
                          (candidates, Some e) \<Rightarrow>
                            (Some allCandidates,
                             emit (Log (ErrorScrapingCandidates (page + 1) e)) st4)
                        | (candidates, None) \<Rightarrow>
                            (let (candidates', st5) = enrichCandidates w 0 candidates st4
                             in (Some (allCandidates @ candidates'), st5))))))"

fun scrapePages ::
  "world \<Rightarrow> string \<Rightarrow> nat list \<Rightarrow> Candidate list \<Rightarrow> state \<Rightarrow> Candidate list option \<times> state" where
  "scrapePages w searchURL [] allCandidates st = (Some allCandidates, st)"
| "scrapePages w searchURL (page # pages) allCandidates st =
     (case scrapePage w searchURL page allCandidates st of
        (None, st') \<Rightarrow> (None, st')
      | (Some allCandidates', st') \<Rightarrow> scrapePages w searchURL pages allCandidates' st')"

subsection \<open>writeToCSV (lines 202-233) and the writer of encoding/csv\<close>

text \<open>
  \<open>csv.Writer\<close> with its default settings (comma as delimiter, records ended by a line
  feed). A field is written as it is unless it needs quotes; a quoted field stands between
  double quotes, with every double quote of the field doubled.
\<close>

definition comma :: char where "comma = CHR '',''"
definition dquote :: char where "dquote = CHR 0x22"
definition LF :: char where "LF = CHR 0x0A"
definition CR :: char where "CR = CHR 0x0D"

definition firstRuneIsSpace :: "string \<Rightarrow> bool" where
  "firstRuneIsSpace field =
     (case field of
        [] \<Rightarrow> False
      | a # r1 \<Rightarrow>
          isSpaceASCII a \<or>
          (case r1 of
             [] \<Rightarrow> False
           | b # r2 \<Rightarrow> isSpace2 a b \<or> (case r2 of [] \<Rightarrow> False | c # _ \<Rightarrow> isSpace3 a b c)))"

definition fieldNeedsQuotes :: "string \<Rightarrow> bool" where
  "fieldNeedsQuotes field =
     (if field = [] then False
      else if field = [CHR 0x5C, CHR ''.''] then True
      else if list_ex (\<lambda>c. c = LF \<or> c = CR \<or> c = dquote \<or> c = comma) field then True
      else firstRuneIsSpace field)"

definition quoteField :: "string \<Rightarrow> string" where
  "quoteField field =
     [dquote] @ concat (map (\<lambda>c. if c = dquote then [dquote, dquote] else [c]) field) @ [dquote]"

definition writeField :: "string \<Rightarrow> string" where
  "writeField field = (if fieldNeedsQuotes field then quoteField field else field)"

fun writeFields :: "string list \<Rightarrow> string" where
  "writeFields [] = []"
| "writeFields [field] = writeField field"
| "writeFields (field # rest) = writeField field @ [comma] @ writeFields rest"

definition csvWrite :: "string list \<Rightarrow> string" where
  "csvWrite rc = writeFields rc @ [LF]"

definition header :: "string list" where
  "header = [''Name'', ''Email'', ''Phone'', ''Profile URL'', ''Experience'']"

definition row :: "Candidate \<Rightarrow> string list" where
  "row candidate =
     [Name candidate, Email candidate, Phone candidate, ProfileURL candidate,
      Itoa (Experience candidate)]"

text \<open>The bytes handed to the writer when no call of \<open>writer.Write\<close> fails.\<close>

definition csvOutput :: "Candidate list \<Rightarrow> string" where
  "csvOutput candidates =
     foldl (\<lambda>out candidate. out @ csvWrite (row candidate)) (csvWrite header) candidates"

text \<open>
  \<open>os.Create\<close> truncates the file. The writer buffers, so a call of \<open>writer.Write\<close> can
  fail when the buffer is written out, and the deferred \<open>writer.Flush\<close> can fail too; the
  program never looks at the error of \<open>Flush\<close>. \<open>leftInFile w filename failed out\<close> is what
  the deferred \<open>Flush\<close> and \<open>Close\<close> leave in the file when \<open>out\<close> are the bytes handed to
  the writer and \<open>failed\<close> says that a \<open>Write\<close> has returned an error: all of \<open>out\<close> when
  nothing fails, and otherwise the bytes the file had taken.
\<close>

definition leftInFile :: "world \<Rightarrow> string \<Rightarrow> bool \<Rightarrow> string \<Rightarrow> string" where
  "leftInFile w filename failed out =
     (if failed then take (accepted w filename) out
      else (case writerFlush w filename of
              None \<Rightarrow> out
            | Some err \<Rightarrow> take (accepted w filename) out))"

text \<open>
  The loop of lines 219-230: \<open>k\<close> counts the calls of \<open>writer.Write\<close>, \<open>out\<close> are the bytes
  handed to the writer so far. The result is the error the loop returns with, if any, and
  the bytes handed to the writer.
\<close>

fun writeRows ::
  "world \<Rightarrow> string \<Rightarrow> nat \<Rightarrow> string \<Rightarrow> Candidate list \<Rightarrow> error option \<times> string" where
  "writeRows w filename k out [] = (None, out)"
| "writeRows w filename k out (candidate # rest) =
     (case writerWrite w filename k of
        Some err \<Rightarrow> (Some (FailedToWriteDataRow err), out @ csvWrite (row candidate))
      | None \<Rightarrow> writeRows w filename (k + 1) (out @ csvWrite (row candidate)) rest)"

definition writeToCSV :: "world \<Rightarrow> Candidate list \<Rightarrow> string \<Rightarrow> state \<Rightarrow> error option \<times> state" where
  "writeToCSV w candidates filename st =
     (case osCreate w filename of
        Some err \<Rightarrow> (Some (FailedToCreateCSVFile err), st)
      | None \<Rightarrow>
          (case writerWrite w filename 0 of
             Some err \<Rightarrow>
               (Some (FailedToWriteHeaderRow err),
                st\<lparr>files := (files st)(filename \<mapsto> leftInFile w filename True (csvWrite header))\<rparr>)
           | None \<Rightarrow>
               (case writeRows w filename 1 (csvWrite header) candidates of
                  (Some err, out) \<Rightarrow>
                    (Some err,
                     st\<lparr>files := (files st)(filename \<mapsto> leftInFile w filename True out)\<rparr>)
                | (None, out) \<Rightarrow>
                    (None,
                     st\<lparr>files := (files st)(filename \<mapsto> leftInFile w filename False out)\<rparr>))))"

subsection \<open>buildGoogleSearchURL (lines 48-55) and main (lines 235-341)\<close>

text \<open>
  \<open>url.Values.Encode\<close> of the single parameter \<open>q\<close>: letters, digits, \<open>-\<close>, \<open>_\<close>, \<open>.\<close> and
  \<open>~\<close> stay, a space becomes \<open>+\<close>, every other byte becomes \<open>%XX\<close>.
\<close>

definition hexDigit :: "nat \<Rightarrow> char" where
  "hexDigit d = ''0123456789ABCDEF'' ! d"

definition escapeByte :: "char \<Rightarrow> string" where
  "escapeByte c =
     (if isLetter c \<or> isDigit c \<or> c \<in> set ''-_.~'' then [c]
      else if c = CHR '' '' then ''+''
      else [CHR ''%'', hexDigit (of_char c div 16), hexDigit (of_char c mod 16)])"

definition QueryEscape :: "string \<Rightarrow> string" where
  "QueryEscape s = concat (map escapeByte s)"

definition buildGoogleSearchURL :: "string \<Rightarrow> string \<Rightarrow> string \<Rightarrow> string \<Rightarrow> string" where
  "buildGoogleSearchURL keywords location industry experienceRange =
     (let query = ''site:linkedin.com/in '' @ keywords @ '' '' @ location @ '' '' @ industry
                    @ '' '' @ experienceRange
      in googleSearchURLBase @ ''?'' @ ''q='' @ QueryEscape query)"

datatype exit = Exit0 | Exit1 | Panic

definition main :: "world \<Rightarrow> state \<Rightarrow> exit \<times> state" where
  "main w st =
     (let searchURL = buildGoogleSearchURL ''control valve desuperheater'' ''Bangalore''
                        ''Machinery Manufacturing'' ''7-12 years'';
          st1 = emit (Print (SearchingGoogle searchURL)) st
      in case scrapePages w searchURL [0..<maxPagesToScrape] [] st1 of
           (None, st2) \<Rightarrow> (Panic, st2)
         | (Some allCandidates, st2) \<Rightarrow>
             (if length allCandidates = 0 then (Exit0, emit (Log NoCandidatesFound) st2)
              else (case writeToCSV w allCandidates outputFilename st2 of
                      (Some err, st3) \<Rightarrow> (Exit1, emit (Log (ErrorWritingCSV err)) st3)
                    | (None, st3) \<Rightarrow>
                        (Exit0,
                         emit (Print (SuccessfullyWrote (length allCandidates) outputFilename))
                           st3))))"

subsection \<open>Concrete worlds and inputs\<close>

text \<open>
  The inputs at which the theorems below are evaluated. \<open>scripted reqErr outs final parser\<close>
  is a world in which \<open>http.NewRequest\<close> returns \<open>reqErr\<close>, the calls of \<open>client.Do\<close> return
  the outcomes \<open>outs\<close> in turn and \<open>final\<close> from then on, goquery parses as \<open>parser\<close>
  says, and the output file can be created and written. \<open>parserReturning doc\<close> reads \<open>doc\<close> from an open body and fails on a closed one,
  as reading a response body after \<open>Close\<close> does.
\<close>

definition emptyState :: state where
  "emptyState = \<lparr>draws = 0, sent = 0, trace = [], files = Map.empty\<rparr>"

definition closedBodyError :: error where
  "closedBodyError = External ''http: read on closed response body''"

definition parserReturning :: "document \<Rightarrow> response \<Rightarrow> error + document" where
  "parserReturning doc resp = (if BodyClosed resp then Inl closedBodyError else Inr doc)"

definition scripted ::
  "error option \<Rightarrow> outcome list \<Rightarrow> outcome \<Rightarrow> (response \<Rightarrow> error + document) \<Rightarrow> world" where
  "scripted reqErr outs final parser =
     \<lparr>randSource = (\<lambda>k. 0),
      clientDo = (\<lambda>k req. if k < length outs then outs ! k else final),
      NewRequest = (\<lambda>url. reqErr),
      NewDocumentFromReader = parser,
      osCreate = (\<lambda>name. None),
      writerWrite = (\<lambda>name k. None),
      writerFlush = (\<lambda>name. None),
      accepted = (\<lambda>name. 0)\<rparr>"

definition sampleProfile :: document where
  "sampleProfile =
     \<lparr>resultContainers = [], topCardTitle = ['' John D. ''],
      renderedHtml = ''<p>john@doe.org 555-123-4567</p>''\<rparr>"

definition johnURL :: string where
  "johnURL = ''https://www.linkedin.com/in/john-doe''"

definition annURL :: string where
  "annURL = ''https://www.linkedin.com/in/ann''"

definition johnFromPage :: Candidate where
  "johnFromPage = \<lparr>Name = ''John Doe'', Email = [], Phone = [], ProfileURL = johnURL, Experience = 7\<rparr>"

definition annFromPage :: Candidate where
  "annFromPage =
     \<lparr>Name = ''Ann'', Email = ''ann@x.org'', Phone = [], ProfileURL = annURL, Experience = 12\<rparr>"

definition searchURL0 :: string where
  "searchURL0 = ''https://www.google.com/search?q=site%3Alinkedin.com%2Fin+valve''"

definition emptyDocument :: document where
  "emptyDocument = \<lparr>resultContainers = [], topCardTitle = [], renderedHtml = []\<rparr>"

text \<open>The durations slept, the messages logged and the messages printed, read off a trace.\<close>

fun sleepsOf :: "event list \<Rightarrow> nat list" where
  "sleepsOf [] = []"
| "sleepsOf (Sleep d # es) = d # sleepsOf es"
| "sleepsOf (e # es) = sleepsOf es"

fun logsOf :: "event list \<Rightarrow> message list" where
  "logsOf [] = []"
| "logsOf (Log m # es) = m # logsOf es"
| "logsOf (e # es) = logsOf es"

fun printsOf :: "event list \<Rightarrow> message list" where
  "printsOf [] = []"
| "printsOf (Print m # es) = m # printsOf es"
| "printsOf (e # es) = printsOf es"

text \<open>
  A result page with three containers: one whose link is wrapped in a redirect of the
  search engine, one with no profile link, and one with a direct link and no name element.
\<close>

definition johnContainer :: container where
  "johnContainer =
     \<lparr>profileLinkHrefs = [''/url?q=https://www.linkedin.com/in/john-doe&sa=U''],
      nameTexts = [''  John Doe ''],
      snippetTexts = [''five years at ACME, j.doe@acme.com, (555) 123-4567'']\<rparr>"

definition noLinkContainer :: container where
  "noLinkContainer = \<lparr>profileLinkHrefs = [], nameTexts = [''Nobody''], snippetTexts = [''5 years'']\<rparr>"

definition annContainer :: container where
  "annContainer =
     \<lparr>profileLinkHrefs = [''https://www.linkedin.com/in/ann?trk=x''], nameTexts = [],
      snippetTexts = [''Engineer with 12 years'']\<rparr>"

definition samplePage :: document where
  "samplePage =
     \<lparr>resultContainers = [johnContainer, noLinkContainer, annContainer], topCardTitle = [],
      renderedHtml = []\<rparr>"

text \<open>\<open>parserOf table\<close> reads from an open body the document that \<open>table\<close> gives for it.\<close>

definition parserOf :: "(string \<times> document) list \<Rightarrow> response \<Rightarrow> error + document" where
  "parserOf table resp =
     (if BodyClosed resp then Inl closedBodyError
      else case map_of table (Body resp) of None \<Rightarrow> Inr emptyDocument | Some doc \<Rightarrow> Inr doc)"

text \<open>
  The link of \<open>johnContainer\<close>, a container with a link to another host, and a world
  that answers the page request with \<open>samplePage\<close> and every profile request with
  \<open>sampleProfile\<close>.
\<close>

definition johnHref :: string where
  "johnHref = ''/url?q=https://www.linkedin.com/in/john-doe&sa=U''"

definition foreignContainer :: container where
  "foreignContainer =
     \<lparr>profileLinkHrefs = [''https://in.linkedin.com/in/bob''], nameTexts = [''Bob''],
      snippetTexts = []\<rparr>"

definition pageWorld :: world where
  "pageWorld =
     scripted None [Responded 200 ''<page>''] (Responded 200 ''<profile>'')
       (parserOf [(''<page>'', samplePage), (''<profile>'', sampleProfile)])"

subsection \<open>A reader for the output file\<close>

text \<open>
  Modelled from the spec: the repository has no reader of its output file, and the round
  trip of the specification needs one. \<open>readCSV\<close> reads delimited text by the standard
  quoting rules that the specification names. Fields are separated by commas and records
  are ended by line feeds. A field that starts with a double quote runs to the next double
  quote that is not doubled, and a doubled double quote in it stands for one. A double
  quote or a carriage return in a field without quotes, and anything but a comma or a line
  feed after a closing quote, make the text malformed (\<open>None\<close>), and so does a quote
  that is never closed. The arguments of \<open>readCSV\<close> are the state of the reader, the
  field read so far and the fields of the record read so far.
\<close>

datatype readerState = FieldStart | Bare | Quoted | QuoteSeen

fun readCSV :: "readerState \<Rightarrow> string \<Rightarrow> string list \<Rightarrow> string \<Rightarrow> string list list option" where
  "readCSV st field rw [] =
     (case st of
        Quoted \<Rightarrow> None
      | FieldStart \<Rightarrow> (if rw = [] then Some [] else Some [rw @ [field]])
      | Bare \<Rightarrow> Some [rw @ [field]]
      | QuoteSeen \<Rightarrow> Some [rw @ [field]])"
| "readCSV FieldStart field rw (c # cs) =
     (if c = dquote then readCSV Quoted [] rw cs
      else if c = comma then readCSV FieldStart [] (rw @ [[]]) cs
      else if c = LF then map_option (Cons (rw @ [[]])) (readCSV FieldStart [] [] cs)
      else if c = CR then None
      else readCSV Bare [c] rw cs)"
| "readCSV Bare field rw (c # cs) =
     (if c = dquote \<or> c = CR then None
      else if c = comma then readCSV FieldStart [] (rw @ [field]) cs
      else if c = LF then map_option (Cons (rw @ [field])) (readCSV FieldStart [] [] cs)
      else readCSV Bare (field @ [c]) rw cs)"
| "readCSV Quoted field rw (c # cs) =
     (if c = dquote then readCSV QuoteSeen field rw cs
      else readCSV Quoted (field @ [c]) rw cs)"
| "readCSV QuoteSeen field rw (c # cs) =
     (if c = dquote then readCSV Quoted (field @ [dquote]) rw cs
      else if c = comma then readCSV FieldStart [] (rw @ [field]) cs
      else if c = LF then map_option (Cons (rw @ [field])) (readCSV FieldStart [] [] cs)
      else None)"

definition parseCSV :: "string \<Rightarrow> string list list option" where
  "parseCSV s = readCSV FieldStart [] [] s"

text \<open>
  Modelled from the spec: a row of five fields read back as a Candidate, the last field
  with \<open>strconv.Atoi\<close>; and the whole file read back, its first row being the header.
\<close>

definition candidateOfRow :: "string list \<Rightarrow> Candidate option" where
  "candidateOfRow rw =
     (case rw of
        [name, email, phone, url, experience] \<Rightarrow>
          (case Atoi experience of
             (years, None) \<Rightarrow>
               Some \<lparr>Name = name, Email = email, Phone = phone, ProfileURL = url,
                      Experience = years\<rparr>
           | (years, Some err) \<Rightarrow> None)
      | _ \<Rightarrow> None)"

definition readCandidates :: "string \<Rightarrow> Candidate list option" where
  "readCandidates s =
     (case parseCSV s of
        None \<Rightarrow> None
      | Some [] \<Rightarrow> None
      | Some (h # rows) \<Rightarrow> (if h = header then those (map candidateOfRow rows) else None))"

text \<open>The values of Go's \<open>int\<close>, and the characters a field without quotes is made of.\<close>

definition isGoInt :: "int \<Rightarrow> bool" where
  "isGoInt i = (minInt \<le> i \<and> i \<le> maxInt)"

definition bareChar :: "char \<Rightarrow> bool" where
  "bareChar c = (c \<noteq> LF \<and> c \<noteq> CR \<and> c \<noteq> dquote \<and> c \<noteq> comma)"

text \<open>Two records whose fields need quotes: a comma, double quotes, a leading space.\<close>

definition johnEnriched :: Candidate where
  "johnEnriched =
     \<lparr>Name = ''Doe, John'', Email = ''john@doe.org'', Phone = ''555-123-4567'',
      ProfileURL = johnURL, Experience = 7\<rparr>"

definition annQuoted :: Candidate where
  "annQuoted =
     \<lparr>Name = ''Ann '' @ [dquote] @ ''A'' @ [dquote], Email = [], Phone = '' 555 123 4567'',
      ProfileURL = annURL, Experience = 12\<rparr>"

subsection \<open>The vocabulary of the statements\<close>

text \<open>The document with the single result container \<open>c\<close>.\<close>

definition single :: "container \<Rightarrow> document" where
  "single c = \<lparr>resultContainers = [c], topCardTitle = [], renderedHtml = []\<rparr>"

text \<open>
  A container is well-formed when it has a profile link that the canonical pattern
  matches, and malformed for want of a link when no element matches the link selector.
\<close>

definition wellFormed :: "container \<Rightarrow> bool" where
  "wellFormed c =
     (case Attr (profileLinkHrefs c) of
        None \<Rightarrow> False
      | Some href \<Rightarrow> FindStringSubmatch profileLinkRegex href \<noteq> None)"

definition missingLink :: "container \<Rightarrow> bool" where
  "missingLink c = (Attr (profileLinkHrefs c) = None)"

text \<open>
  The patterns as the specification words them. \<open>canonicalMatch href pre m\<close>: after the
  text \<open>pre\<close>, the link \<open>href\<close> goes on with \<open>m\<close>, which is the canonical base followed by
  one character or more, none of them \<open>&\<close> or \<open>?\<close>, and ends at such a delimiter or at
  the end of the link. \<open>experienceMatch s pre ds\<close>: after \<open>pre\<close>, the snippet \<open>s\<close> goes on
  with the digits \<open>ds\<close>, white space and \<open>year\<close>.
\<close>

definition isDelim :: "char \<Rightarrow> bool" where
  "isDelim c = (c = CHR ''&'' \<or> c = CHR ''?'')"

definition canonicalMatch :: "string \<Rightarrow> string \<Rightarrow> string \<Rightarrow> bool" where
  "canonicalMatch href pre m =
     (\<exists>t rest. href = pre @ m @ rest \<and> m = ''https://www.linkedin.com/in/'' @ t \<and> t \<noteq> [] \<and>
        list_all notDelim t \<and> list_all isDelim (take 1 rest))"

definition experienceMatch :: "string \<Rightarrow> string \<Rightarrow> string \<Rightarrow> bool" where
  "experienceMatch s pre ds =
     (\<exists>ws post. s = pre @ ds @ ws @ ''year'' @ post \<and> ds \<noteq> [] \<and> list_all isDigit ds \<and>
        ws \<noteq> [] \<and> list_all isSpaceRE ws)"

text \<open>
  Two readings of a container with a canonical profile link, both stated with
  \<open>canonicalMatch\<close> and the links of the container alone: \<open>hasCanonicalLink\<close>, some link
  of the container has a match of the canonical pattern; \<open>firstLinkCanonical\<close>, the first
  link of the container has one.
\<close>

definition hasCanonicalLink :: "container \<Rightarrow> bool" where
  "hasCanonicalLink c = list_ex (\<lambda>href. \<exists>pre m. canonicalMatch href pre m) (profileLinkHrefs c)"

definition firstLinkCanonical :: "container \<Rightarrow> bool" where
  "firstLinkCanonical c =
     (\<exists>href rest pre m. profileLinkHrefs c = href # rest \<and> canonicalMatch href pre m)"

text \<open>
  A container whose first profile link goes to another host and whose second link is
  canonical, and a page with it; a world whose disk is full, so that the call \<open>k\<close> of
  \<open>writer.Write\<close> and every later one fail with the file holding \<open>n\<close> bytes; and a world
  in which only the deferred flush fails.
\<close>

definition secondLinkContainer :: container where
  "secondLinkContainer =
     \<lparr>profileLinkHrefs = [''https://in.linkedin.com/in/bob'', ''https://www.linkedin.com/in/ann''],
      nameTexts = [''Ann''], snippetTexts = [''12 years'']\<rparr>"

definition twoLinkPage :: document where
  "twoLinkPage =
     \<lparr>resultContainers = [johnContainer, secondLinkContainer, foreignContainer],
      topCardTitle = [], renderedHtml = []\<rparr>"

definition diskFull :: error where
  "diskFull = External ''no space left on device''"

definition diskFullAt :: "nat \<Rightarrow> nat \<Rightarrow> world" where
  "diskFullAt k n =
     (scripted None [] (Responded 200 []) (parserReturning emptyDocument))
       \<lparr>writerWrite := (\<lambda>name i. if k \<le> i then Some diskFull else None),
        writerFlush := (\<lambda>name. Some diskFull),
        accepted := (\<lambda>name. n)\<rparr>"

definition flushFails :: "nat \<Rightarrow> world" where
  "flushFails n =
     (scripted None [] (Responded 200 []) (parserReturning emptyDocument))
       \<lparr>writerFlush := (\<lambda>name. Some diskFull), accepted := (\<lambda>name. n)\<rparr>"

text \<open>What the call of \<open>scrapeProfileDetails\<close> in pass \<open>i\<close> of the enrichment loop returns.\<close>

abbreviation detailsOf :: "world \<Rightarrow> nat \<Rightarrow> Candidate \<Rightarrow> state \<Rightarrow> Candidate \<times> error option" where
  "detailsOf w i cand st \<equiv>
     fst (scrapeProfileDetails w (ProfileURL cand)
            (emit (Print (ScrapingDetails (i + 1) (ProfileURL cand))) st))"

section \<open>Properties\<close>

subsection \<open>Evaluation of the model\<close>

lemmas char_defs = isDigit_def isLetter_def isSpaceRE_def isEmailLocal_def isEmailDomain_def
  isPhoneSep_def notDelim_def isSpaceASCII_def isSpace2_def isSpace3_def

lemmas regex_defs = experienceRegex_def profileLinkRegex_def linkedinBase_def emailRegex_def
  phoneRegex_def optionalChar_def digitsExactly_def FindStringSubmatch_def FindString_def
  extractRegex_def

lemmas effect_defs = emit_def Intn_def randomDelay_def getHeaders_def userAgents_def
  Do_request_def googleReferer_def retryDelay_def retryAttempts_def

lemmas world_defs = scripted_def parserReturning_def closedBodyError_def emptyState_def

lemma sampleProfile_email: "extractRegex (renderedHtml sampleProfile) emailRegex = ''john@doe.org''"
  by (simp add: sampleProfile_def regex_defs char_defs Let_def)

lemma sampleProfile_phone: "extractRegex (renderedHtml sampleProfile) phoneRegex = ''555-123-4567''"
  by (simp add: sampleProfile_def regex_defs char_defs Let_def)

lemma sampleProfile_name: "publicName sampleProfile = ''John D.''"
  by (simp add: sampleProfile_def publicName_def TrimSpace_def Text_def char_defs)

lemmas sampleProfile_simps = sampleProfile_email sampleProfile_phone sampleProfile_name

subsection \<open>scrapeProfileDetails and the enrichment loop\<close>

lemma scrapeProfileDetails_cases:
  "snd (fst (scrapeProfileDetails w profileURL st)) = None \<or>
   fst (fst (scrapeProfileDetails w profileURL st)) =
     \<lparr>Name = [], Email = [], Phone = [], ProfileURL = profileURL, Experience = 0\<rparr>"
  by (simp add: scrapeProfileDetails_def Let_def
      split: prod.splits option.splits outcome.splits sum.splits)

lemma enrichCandidate_success:
  assumes "snd (detailsOf w i cand st) = None"
  shows "fst (enrichCandidate w i cand st) =
           \<lparr>Name = Name (fst (detailsOf w i cand st)),
            Email = Email (fst (detailsOf w i cand st)),
            Phone = Phone (fst (detailsOf w i cand st)),
            ProfileURL = ProfileURL cand, Experience = Experience cand\<rparr>"
  using assms by (cases cand) (auto simp add: enrichCandidate_def Let_def split: prod.splits)

lemma enrichCandidate_failure:
  assumes "snd (detailsOf w i cand st) \<noteq> None"
  shows "fst (enrichCandidate w i cand st) = cand"
  using assms by (auto simp add: enrichCandidate_def Let_def split: prod.splits)

lemma enrichCandidates_length: "length (fst (enrichCandidates w i cs st)) = length cs"
proof (induction cs arbitrary: i st)
  case Nil
  show ?case by simp
next
  case (Cons c cs)
  obtain c' st1 where e: "enrichCandidate w i c st = (c', st1)"
    by (cases "enrichCandidate w i c st")
  obtain cs' st2 where r: "enrichCandidates w (i + 1) cs st1 = (cs', st2)"
    by (cases "enrichCandidates w (i + 1) cs st1")
  from Cons.IH [of "i + 1" st1] r have "length cs' = length cs" by simp
  with e r show ?case by simp
qed

lemma enrichCandidates_nth:
  "k < length cs \<Longrightarrow>
   \<exists>st'. fst (enrichCandidates w i cs st) ! k = fst (enrichCandidate w (i + k) (cs ! k) st')"
proof (induction cs arbitrary: i st k)
  case Nil
  then show ?case by simp
next
  case (Cons c cs)
  show ?case
  proof (cases k)
    case 0
    then show ?thesis
      by (auto simp add: Let_def split: prod.splits intro: exI [of _ st])
  next
    case (Suc j)
    with Cons.prems have j: "j < length cs" by simp
    obtain c' st1 where e: "enrichCandidate w i c st = (c', st1)"
      by (cases "enrichCandidate w i c st")
    from Cons.IH [OF j, of "i + 1" st1] obtain st' where
      "fst (enrichCandidates w (i + 1) cs st1) ! j =
         fst (enrichCandidate w (i + 1 + j) (cs ! j) st')"
      by blast
    with Suc e show ?thesis
      by (auto simp add: Let_def split: prod.splits)
  qed
qed

text \<open>
  Claim C10. On every path on which \<open>scrapeProfileDetails\<close> returns an error (the request
  cannot be created, the transport fails, the status is 429 or 302, the status is another
  one than 200, the body cannot be parsed), the Candidate it returns beside the error has
  the input URL as its ProfileURL and every other field at its zero value.
\<close>

theorem scrapeProfileDetails_error_candidate:
  assumes "snd (fst (scrapeProfileDetails w profileURL st)) = Some e"
  shows "fst (fst (scrapeProfileDetails w profileURL st)) =
           \<lparr>Name = [], Email = [], Phone = [], ProfileURL = profileURL, Experience = 0\<rparr>"
  using assms scrapeProfileDetails_cases [of w profileURL st] by auto

theorem scrapeProfileDetails_error_candidate_witness:
  "snd (fst (scrapeProfileDetails
               (scripted (Some (External ''invalid URL'')) [] (Responded 200 [])
                  (parserReturning sampleProfile)) johnURL emptyState))
     = Some (FailedToCreateRequest (External ''invalid URL'')) \<and>
   fst (fst (scrapeProfileDetails
               (scripted (Some (External ''invalid URL'')) [] (Responded 200 [])
                  (parserReturning sampleProfile)) johnURL emptyState))
     = \<lparr>Name = [], Email = [], Phone = [], ProfileURL = johnURL, Experience = 0\<rparr> \<and>
   snd (fst (scrapeProfileDetails
               (scripted None [TransportError (External ''timeout'')] (Responded 200 [])
                  (parserReturning sampleProfile)) johnURL emptyState))
     = Some (FailedToFetchProfile (External ''timeout'')) \<and>
   fst (fst (scrapeProfileDetails
               (scripted None [TransportError (External ''timeout'')] (Responded 200 [])
                  (parserReturning sampleProfile)) johnURL emptyState))
     = \<lparr>Name = [], Email = [], Phone = [], ProfileURL = johnURL, Experience = 0\<rparr> \<and>
   snd (fst (scrapeProfileDetails
               (scripted None [Responded 429 []] (Responded 200 [])
                  (parserReturning sampleProfile)) johnURL emptyState))
     = Some CaptchaOrRateLimit \<and>
   fst (fst (scrapeProfileDetails
               (scripted None [Responded 429 []] (Responded 200 [])
                  (parserReturning sampleProfile)) johnURL emptyState))
     = \<lparr>Name = [], Email = [], Phone = [], ProfileURL = johnURL, Experience = 0\<rparr> \<and>
   snd (fst (scrapeProfileDetails
               (scripted None [Responded 503 []] (Responded 200 [])
                  (parserReturning sampleProfile)) johnURL emptyState))
     = Some (ProfileRequestFailed 503) \<and>
   fst (fst (scrapeProfileDetails
               (scripted None [Responded 503 []] (Responded 200 [])
                  (parserReturning sampleProfile)) johnURL emptyState))
     = \<lparr>Name = [], Email = [], Phone = [], ProfileURL = johnURL, Experience = 0\<rparr> \<and>
   snd (fst (scrapeProfileDetails
               (scripted None [Responded 200 ''<html>''] (Responded 200 [])
                  (\<lambda>resp. Inl (External ''unexpected EOF''))) johnURL emptyState))
     = Some (FailedToParseProfileHTML (External ''unexpected EOF'')) \<and>
   fst (fst (scrapeProfileDetails
               (scripted None [Responded 200 ''<html>''] (Responded 200 [])
                  (\<lambda>resp. Inl (External ''unexpected EOF''))) johnURL emptyState))
     = \<lparr>Name = [], Email = [], Phone = [], ProfileURL = johnURL, Experience = 0\<rparr>"
proof -
  have h1: "snd (fst (scrapeProfileDetails
               (scripted (Some (External ''invalid URL'')) [] (Responded 200 [])
                  (parserReturning sampleProfile)) johnURL emptyState))
     = Some (FailedToCreateRequest (External ''invalid URL''))"
    by (simp add: scrapeProfileDetails_def world_defs effect_defs Let_def)
  have h2: "snd (fst (scrapeProfileDetails
               (scripted None [TransportError (External ''timeout'')] (Responded 200 [])
                  (parserReturning sampleProfile)) johnURL emptyState))
     = Some (FailedToFetchProfile (External ''timeout''))"
    by (simp add: scrapeProfileDetails_def world_defs effect_defs Let_def)
  have h3: "snd (fst (scrapeProfileDetails
               (scripted None [Responded 429 []] (Responded 200 [])
                  (parserReturning sampleProfile)) johnURL emptyState))
     = Some CaptchaOrRateLimit"
    by (simp add: scrapeProfileDetails_def world_defs effect_defs Let_def)
  have h4: "snd (fst (scrapeProfileDetails
               (scripted None [Responded 503 []] (Responded 200 [])
                  (parserReturning sampleProfile)) johnURL emptyState))
     = Some (ProfileRequestFailed 503)"
    by (simp add: scrapeProfileDetails_def world_defs effect_defs Let_def)
  have h5: "snd (fst (scrapeProfileDetails
               (scripted None [Responded 200 ''<html>''] (Responded 200 [])
                  (\<lambda>resp. Inl (External ''unexpected EOF''))) johnURL emptyState))
     = Some (FailedToParseProfileHTML (External ''unexpected EOF''))"
    by (simp add: scrapeProfileDetails_def world_defs effect_defs Let_def)
  show ?thesis
    using h1 h2 h3 h4 h5
      scrapeProfileDetails_error_candidate [OF h1]
      scrapeProfileDetails_error_candidate [OF h2]
      scrapeProfileDetails_error_candidate [OF h3]
      scrapeProfileDetails_error_candidate [OF h4]
      scrapeProfileDetails_error_candidate [OF h5]
    by (intro conjI) assumption+
qed

text \<open>
  Claim C6. A pass of the enrichment loop whose call of \<open>scrapeProfileDetails\<close> returns no
  error stores a record with the Name, Email and Phone of the detailed candidate and the
  ProfileURL and Experience the page-level record had; a pass whose call returns an error
  stores the record unchanged. The loop keeps the number of records, and its \<open>k\<close>-th
  result is what such a pass makes of the \<open>k\<close>-th record.
\<close>

theorem enrichment_overwrites_contact_fields_only:
  "(snd (detailsOf w i cand st) = None \<longrightarrow>
      fst (enrichCandidate w i cand st) =
        \<lparr>Name = Name (fst (detailsOf w i cand st)),
         Email = Email (fst (detailsOf w i cand st)),
         Phone = Phone (fst (detailsOf w i cand st)),
         ProfileURL = ProfileURL cand, Experience = Experience cand\<rparr>) \<and>
   (snd (detailsOf w i cand st) \<noteq> None \<longrightarrow> fst (enrichCandidate w i cand st) = cand) \<and>
   length (fst (enrichCandidates w i cs st)) = length cs \<and>
   (\<forall>k < length cs. \<exists>st'.
      fst (enrichCandidates w i cs st) ! k = fst (enrichCandidate w (i + k) (cs ! k) st'))"
  using enrichCandidate_success [where w = w and i = i and cand = cand and st = st]
    enrichCandidate_failure [where w = w and i = i and cand = cand and st = st]
    enrichCandidates_length [where w = w and i = i and cs = cs and st = st]
    enrichCandidates_nth [where w = w and i = i and cs = cs and st = st]
  by blast

theorem enrichment_overwrites_contact_fields_only_witness:
  "snd (detailsOf (scripted None [Responded 200 ''<html>'', Responded 429 []] (Responded 429 [])
                     (parserReturning sampleProfile)) 0 johnFromPage emptyState) = None \<and>
   fst (enrichCandidate (scripted None [Responded 200 ''<html>'', Responded 429 []] (Responded 429 [])
                     (parserReturning sampleProfile)) 0 johnFromPage emptyState) =
     \<lparr>Name = ''John D.'', Email = ''john@doe.org'', Phone = ''555-123-4567'',
      ProfileURL = johnURL, Experience = 7\<rparr> \<and>
   snd (detailsOf (scripted None [Responded 429 []] (Responded 429 [])
                     (parserReturning sampleProfile)) 0 annFromPage emptyState) \<noteq> None \<and>
   fst (enrichCandidate (scripted None [Responded 429 []] (Responded 429 [])
                     (parserReturning sampleProfile)) 0 annFromPage emptyState) = annFromPage \<and>
   fst (enrichCandidates (scripted None [Responded 200 ''<html>'', Responded 429 []] (Responded 429 [])
                     (parserReturning sampleProfile)) 0 [johnFromPage, annFromPage] emptyState) =
     [\<lparr>Name = ''John D.'', Email = ''john@doe.org'', Phone = ''555-123-4567'',
       ProfileURL = johnURL, Experience = 7\<rparr>, annFromPage]"
proof -
  let ?W = "scripted None [Responded 200 ''<html>'', Responded 429 []] (Responded 429 [])
              (parserReturning sampleProfile)"
  let ?V = "scripted None [Responded 429 []] (Responded 429 []) (parserReturning sampleProfile)"
  have d1: "detailsOf ?W 0 johnFromPage emptyState =
              (\<lparr>Name = ''John D.'', Email = ''john@doe.org'', Phone = ''555-123-4567'',
                ProfileURL = johnURL, Experience = 0\<rparr>, None)"
    by (simp add: scrapeProfileDetails_def world_defs effect_defs Let_def johnFromPage_def
        sampleProfile_simps)
  have d2: "snd (detailsOf ?V 0 annFromPage emptyState) \<noteq> None"
    by (simp add: scrapeProfileDetails_def world_defs effect_defs Let_def annFromPage_def)
  have l: "fst (enrichCandidates ?W 0 [johnFromPage, annFromPage] emptyState) =
     [\<lparr>Name = ''John D.'', Email = ''john@doe.org'', Phone = ''555-123-4567'',
       ProfileURL = johnURL, Experience = 7\<rparr>, annFromPage]"
    by (simp add: enrichCandidate_def scrapeProfileDetails_def world_defs effect_defs Let_def
        johnFromPage_def annFromPage_def sampleProfile_simps)
  show ?thesis
    using d1 d2 l
      enrichment_overwrites_contact_fields_only [where w = ?W and i = 0 and cand = johnFromPage
        and st = emptyState and cs = "[johnFromPage, annFromPage]"]
      enrichment_overwrites_contact_fields_only [where w = ?V and i = 0 and cand = annFromPage
        and st = emptyState and cs = "[]"]
    by (simp add: johnFromPage_def)
qed

subsection \<open>The retry loop\<close>

lemma sleepsOf_append: "sleepsOf (xs @ ys) = sleepsOf xs @ sleepsOf ys"
  by (induction xs rule: sleepsOf.induct) auto

lemma logsOf_append: "logsOf (xs @ ys) = logsOf xs @ logsOf ys"
  by (induction xs rule: logsOf.induct) auto

lemma fetchPage_unfold:
  "fetchPage w pageURL st = fetchLoop w pageURL (Suc (Suc (Suc 0))) (None, None) st"
  by (simp add: fetchPage_def retryAttempts_def numeral_3_eq_3)

lemma getHeaders_state:
  "sent (snd (getHeaders w st)) = sent st \<and> trace (snd (getHeaders w st)) = trace st"
  by (simp add: getHeaders_def Intn_def split_def)

lemma fetchAttempt_non200:
  assumes "NewRequest w pageURL = None"
    and "\<forall>req. clientDo w (sent st) req = Responded code body"
    and "code \<noteq> 200"
  shows "\<exists>st'. fetchAttempt w pageURL vars st =
                 (Continue,
                  (Some \<lparr>StatusCode = code, Body = body, BodyClosed = True\<rparr>, None), st') \<and>
               sent st' = sent st + 1 \<and>
               sleepsOf (trace st') = sleepsOf (trace st) @ [retryDelay]"
  using assms getHeaders_state [of w st]
  by (simp add: fetchAttempt_def Do_request_def emit_def split_def sleepsOf_append Let_def)

lemma fetchAttempt_200:
  assumes "NewRequest w pageURL = None"
    and "\<forall>req. clientDo w (sent st) req = Responded 200 body"
  shows "\<exists>st'. fetchAttempt w pageURL vars st =
                 (Break,
                  (Some \<lparr>StatusCode = 200, Body = body, BodyClosed = False\<rparr>, None), st') \<and>
               sent st' = sent st + 1 \<and>
               sleepsOf (trace st') = sleepsOf (trace st)"
  using assms getHeaders_state [of w st]
  by (simp add: fetchAttempt_def Do_request_def emit_def split_def sleepsOf_append Let_def)

text \<open>
  Claim C5. When the successive calls of \<open>client.Do\<close> of a page fetch answer 503, 503 and
  200, the fetch ends with the third response, its body open and no error, after three
  requests, and the sleeps it has added to the trace are two sleeps of \<open>retryDelay\<close>.
\<close>

theorem fetchPage_503_503_200:
  assumes req: "NewRequest w pageURL = None"
    and r1: "\<forall>req. clientDo w (sent st) req = Responded 503 b1"
    and r2: "\<forall>req. clientDo w (sent st + 1) req = Responded 503 b2"
    and r3: "\<forall>req. clientDo w (sent st + 2) req = Responded 200 body"
  shows "fst (fetchPage w pageURL st) =
           (Some \<lparr>StatusCode = 200, Body = body, BodyClosed = False\<rparr>, None) \<and>
         sent (snd (fetchPage w pageURL st)) = sent st + 3 \<and>
         sleepsOf (trace (snd (fetchPage w pageURL st))) =
           sleepsOf (trace st) @ [retryDelay, retryDelay]"
proof -
  from fetchAttempt_non200 [OF req r1, of "(None, None)"] obtain st1 where
    a1: "fetchAttempt w pageURL (None, None) st =
           (Continue, (Some \<lparr>StatusCode = 503, Body = b1, BodyClosed = True\<rparr>, None), st1)"
    and s1: "sent st1 = sent st + 1"
    and t1: "sleepsOf (trace st1) = sleepsOf (trace st) @ [retryDelay]"
    by auto
  from r2 s1 have r2': "\<forall>req. clientDo w (sent st1) req = Responded 503 b2" by simp
  from fetchAttempt_non200 [OF req r2',
      of "(Some \<lparr>StatusCode = 503, Body = b1, BodyClosed = True\<rparr>, None)"] obtain st2 where
    a2: "fetchAttempt w pageURL
           (Some \<lparr>StatusCode = 503, Body = b1, BodyClosed = True\<rparr>, None) st1 =
           (Continue, (Some \<lparr>StatusCode = 503, Body = b2, BodyClosed = True\<rparr>, None), st2)"
    and s2: "sent st2 = sent st1 + 1"
    and t2: "sleepsOf (trace st2) = sleepsOf (trace st1) @ [retryDelay]"
    by auto
  from r3 s1 s2 have r3': "\<forall>req. clientDo w (sent st2) req = Responded 200 body" by simp
  from fetchAttempt_200 [OF req r3',
      of "(Some \<lparr>StatusCode = 503, Body = b2, BodyClosed = True\<rparr>, None)"] obtain st3 where
    a3: "fetchAttempt w pageURL
           (Some \<lparr>StatusCode = 503, Body = b2, BodyClosed = True\<rparr>, None) st2 =
           (Break, (Some \<lparr>StatusCode = 200, Body = body, BodyClosed = False\<rparr>, None), st3)"
    and s3: "sent st3 = sent st2 + 1"
    and t3: "sleepsOf (trace st3) = sleepsOf (trace st2)"
    by auto
  have "fetchPage w pageURL st =
          ((Some \<lparr>StatusCode = 200, Body = body, BodyClosed = False\<rparr>, None), st3)"
    by (simp add: fetchPage_unfold a1 a2 a3)
  with s1 s2 s3 t1 t2 t3 show ?thesis by simp
qed

theorem fetchPage_503_503_200_witness:
  "fst (fetchPage (scripted None [Responded 503 ''busy'', Responded 503 ''busy'']
                     (Responded 200 ''<html>'') (parserReturning emptyDocument))
          searchURL0 emptyState) =
     (Some \<lparr>StatusCode = 200, Body = ''<html>'', BodyClosed = False\<rparr>, None) \<and>
   sent (snd (fetchPage (scripted None [Responded 503 ''busy'', Responded 503 ''busy'']
                           (Responded 200 ''<html>'') (parserReturning emptyDocument))
                searchURL0 emptyState)) = 3 \<and>
   sleepsOf (trace (snd (fetchPage (scripted None [Responded 503 ''busy'', Responded 503 ''busy'']
                                      (Responded 200 ''<html>'') (parserReturning emptyDocument))
                           searchURL0 emptyState))) = [5, 5]"
proof -
  let ?W = "scripted None [Responded 503 ''busy'', Responded 503 ''busy'']
              (Responded 200 ''<html>'') (parserReturning emptyDocument)"
  have h0: "NewRequest ?W searchURL0 = None"
    by (simp add: scripted_def)
  have h1: "\<forall>req. clientDo ?W (sent emptyState) req = Responded 503 ''busy''"
    by (simp add: scripted_def emptyState_def)
  have h2: "\<forall>req. clientDo ?W (sent emptyState + 1) req = Responded 503 ''busy''"
    by (simp add: scripted_def emptyState_def)
  have h3: "\<forall>req. clientDo ?W (sent emptyState + 2) req = Responded 200 ''<html>''"
    by (simp add: scripted_def emptyState_def)
  show ?thesis
    using fetchPage_503_503_200 [OF h0 h1 h2 h3]
    by (simp add: emptyState_def retryDelay_def)
qed

text \<open>
  Claim C1, at a page fetch that is answered 429 every time: the loop of lines 272-294
  treats 429 like any other status that is not 200. It logs, sleeps \<open>retryDelay\<close> and sends
  the request again, three requests in all, and ends with no error at all.
\<close>

theorem fetchPage_retries_after_429:
  "fst (fetchPage (scripted None [] (Responded 429 []) (parserReturning emptyDocument))
          searchURL0 emptyState) =
     (Some \<lparr>StatusCode = 429, Body = [], BodyClosed = True\<rparr>, None) \<and>
   sent (snd (fetchPage (scripted None [] (Responded 429 []) (parserReturning emptyDocument))
                searchURL0 emptyState)) = 3 \<and>
   sleepsOf (trace (snd (fetchPage (scripted None [] (Responded 429 [])
                                      (parserReturning emptyDocument))
                           searchURL0 emptyState))) = [5, 5, 5] \<and>
   logsOf (trace (snd (fetchPage (scripted None [] (Responded 429 [])
                                    (parserReturning emptyDocument))
                         searchURL0 emptyState))) =
     [ReceivedStatusCode 429 5, ReceivedStatusCode 429 5, ReceivedStatusCode 429 5]"
  by (simp add: fetchPage_unfold fetchAttempt_def Let_def world_defs effect_defs)

text \<open>
  Claim C2, at a page whose three attempts are all answered 503: \<open>err\<close> is \<open>nil\<close> after the
  loop, so the test of line 295 does not skip the page and nothing is logged about a failed
  fetch. The driver hands the closed body of the last response to the parser. With a
  parser that fails on a closed body the page is dropped as a parse error; with an empty
  body, which a parser reads as an empty document even after \<open>Close\<close>, extraction runs and
  finds nothing.
\<close>

theorem scrapePage_parses_after_three_503:
  "fst (scrapePage (scripted None [] (Responded 503 ''busy'') (parserReturning emptyDocument))
          searchURL0 0 [] emptyState) = Some [] \<and>
   logsOf (trace (snd (scrapePage (scripted None [] (Responded 503 ''busy'')
                                     (parserReturning emptyDocument))
                          searchURL0 0 [] emptyState))) =
     [ReceivedStatusCode 503 5, ReceivedStatusCode 503 5, ReceivedStatusCode 503 5,
      ErrorParsingPage 1 closedBodyError] \<and>
   fst (scrapePage (scripted None [] (Responded 503 []) (\<lambda>resp. Inr emptyDocument))
          searchURL0 0 [] emptyState) = Some [] \<and>
   logsOf (trace (snd (scrapePage (scripted None [] (Responded 503 [])
                                     (\<lambda>resp. Inr emptyDocument))
                          searchURL0 0 [] emptyState))) =
     [ReceivedStatusCode 503 5, ReceivedStatusCode 503 5, ReceivedStatusCode 503 5]"
  by (simp add: scrapePage_def pageURLOf_def fetchPage_unfold fetchAttempt_def Let_def
      world_defs effect_defs emptyDocument_def scrapeGoogleSearchResults_def)

subsection \<open>The leftmost match\<close>

lemma findLeftmost_Some:
  "findLeftmost m s = Some r \<Longrightarrow>
   \<exists>pre suf. s = pre @ suf \<and> m suf = Some r \<and>
     (\<forall>pre' suf'. s = pre' @ suf' \<and> length pre' < length pre \<longrightarrow> m suf' = None)"
proof (induction s)
  case Nil
  then show ?case by auto
next
  case (Cons c cs)
  show ?case
  proof (cases "m (c # cs)")
    case (Some r')
    with Cons.prems have "m (c # cs) = Some r" by simp
    then show ?thesis by (intro exI [of _ "[]"] exI [of _ "c # cs"]) simp
  next
    case None
    with Cons.prems have "findLeftmost m cs = Some r" by simp
    from Cons.IH [OF this] obtain pre suf where
      ps: "cs = pre @ suf" "m suf = Some r"
      and least: "\<forall>pre' suf'. cs = pre' @ suf' \<and> length pre' < length pre \<longrightarrow> m suf' = None"
      by blast
    have "\<forall>pre' suf'. c # cs = pre' @ suf' \<and> length pre' < length (c # pre) \<longrightarrow> m suf' = None"
    proof (intro allI impI)
      fix pre' suf'
      assume a: "c # cs = pre' @ suf' \<and> length pre' < length (c # pre)"
      show "m suf' = None"
      proof (cases pre')
        case Nil
        with a None show ?thesis by simp
      next
        case (Cons d pre'')
        with a have "cs = pre'' @ suf'" "length pre'' < length pre" by auto
        with least show ?thesis by blast
      qed
    qed
    with ps show ?thesis by (intro exI [of _ "c # pre"] exI [of _ suf]) simp
  qed
qed

lemma findLeftmost_None:
  "findLeftmost m s = None \<Longrightarrow> s = pre @ suf \<Longrightarrow> m suf = None"
proof (induction s arbitrary: pre)
  case Nil
  then show ?case by simp
next
  case (Cons c cs)
  from Cons.prems(1) have here: "m (c # cs) = None" and later: "findLeftmost m cs = None"
    by (auto split: option.splits)
  show ?case
  proof (cases pre)
    case Nil
    with Cons.prems(2) here show ?thesis by simp
  next
    case (Cons d pre')
    with Cons.prems(2) have "cs = pre' @ suf" by simp
    from Cons.IH [OF later this] show ?thesis .
  qed
qed

lemma findLeftmost_first:
  assumes "m suf = Some r"
    and "\<forall>pre' suf'. pre @ suf = pre' @ suf' \<and> length pre' < length pre \<longrightarrow> m suf' = None"
  shows "findLeftmost m (pre @ suf) = Some r"
proof (cases "findLeftmost m (pre @ suf)")
  case None
  from findLeftmost_None [OF this refl] assms(1) show ?thesis by simp
next
  case (Some r')
  from findLeftmost_Some [OF this] obtain p s where
    ps: "pre @ suf = p @ s" "m s = Some r'"
    and least: "\<forall>pre' suf'. pre @ suf = pre' @ suf' \<and> length pre' < length p \<longrightarrow> m suf' = None"
    by blast
  have "length p = length pre"
  proof (rule ccontr)
    assume "length p \<noteq> length pre"
    then consider "length p < length pre" | "length pre < length p" by linarith
    then show False
    proof cases
      case 1
      with assms(2) ps show False by auto
    next
      case 2
      with least assms(1) show False by auto
    qed
  qed
  with ps(1) have "s = suf" by (metis append_eq_append_conv)
  with ps(2) assms(1) Some show ?thesis by simp
qed

lemma space_not_digit: "isSpaceRE c \<Longrightarrow> \<not> isDigit c"
  by (auto simp add: isSpaceRE_def isDigit_def)

lemma experienceRegex_Some:
  assumes "experienceRegex t = Some m"
  shows "\<exists>ws post. t = snd m @ ws @ ''year'' @ post \<and> snd m \<noteq> [] \<and> list_all isDigit (snd m) \<and>
           ws \<noteq> [] \<and> list_all isSpaceRE ws"
proof -
  let ?ds = "takeWhile isDigit t" and ?r1 = "dropWhile isDigit t"
  let ?ws = "takeWhile isSpaceRE ?r1" and ?r2 = "dropWhile isSpaceRE ?r1"
  from assms have c: "?ds \<noteq> []" "?ws \<noteq> []" "prefix ''year'' ?r2" and m: "snd m = ?ds"
    by (auto simp add: experienceRegex_def Let_def split: if_splits)
  from c(3) obtain post where "?r2 = ''year'' @ post" by (auto simp add: prefix_def)
  then have "t = ?ds @ ?ws @ ''year'' @ post"
    by (metis takeWhile_dropWhile_id)
  moreover have "list_all isDigit ?ds" "list_all isSpaceRE ?ws"
    by (auto simp add: list_all_iff dest: set_takeWhileD)
  ultimately show ?thesis using c m by auto
qed

lemma experienceRegex_shape:
  assumes "ds \<noteq> []" "list_all isDigit ds" "ws \<noteq> []" "list_all isSpaceRE ws"
  shows "\<exists>full. experienceRegex (ds @ ws @ ''year'' @ post) = Some (full, ds)"
proof -
  let ?t = "ds @ ws @ ''year'' @ post"
  from assms(3,4) obtain w ws' where ws: "ws = w # ws'" "isSpaceRE w"
    by (cases ws) auto
  then have nd: "\<not> isDigit w" by (simp add: space_not_digit)
  from assms(2) have all_d: "\<forall>x\<in>set ds. isDigit x" by (simp add: list_all_iff)
  from assms(4) have all_s: "\<forall>x\<in>set ws. isSpaceRE x" by (simp add: list_all_iff)
  have tw: "takeWhile isDigit ?t = ds" using all_d nd ws(1)
    by (simp add: takeWhile_append2)
  have dw: "dropWhile isDigit ?t = ws @ ''year'' @ post" using all_d nd ws(1)
    by (simp add: dropWhile_append2)
  have ny: "\<not> isSpaceRE (CHR ''y'')" by (simp add: isSpaceRE_def)
  have tw2: "takeWhile isSpaceRE (ws @ ''year'' @ post) = ws" using all_s ny
    by (simp add: takeWhile_append2)
  have dw2: "dropWhile isSpaceRE (ws @ ''year'' @ post) = ''year'' @ post" using all_s ny
    by (simp add: dropWhile_append2)
  show ?thesis
    unfolding experienceRegex_def Let_def tw dw tw2 dw2 using assms(1,3) by simp
qed

subsection \<open>The experience pattern and parseExperience\<close>

lemma digitVal_nonneg: "isDigit c \<Longrightarrow> 0 \<le> digitVal c"
  by (auto simp add: isDigit_def digitVal_def)

lemma foldl_decimal_nonneg:
  "0 \<le> n \<Longrightarrow> list_all isDigit ds \<Longrightarrow> 0 \<le> foldl (\<lambda>n c. 10 * n + digitVal c) n ds"
proof (induction ds arbitrary: n)
  case Nil
  then show ?case by simp
next
  case (Cons d ds)
  from Cons.prems have "0 \<le> 10 * n + digitVal d" using digitVal_nonneg [of d] by simp
  with Cons show ?case by simp
qed

lemma decimal_nonneg: "list_all isDigit ds \<Longrightarrow> 0 \<le> decimal ds"
  by (simp add: decimal_def foldl_decimal_nonneg)

lemma Atoi_digits:
  assumes "ds \<noteq> []" "list_all isDigit ds"
  shows "Atoi ds = (if decimal ds \<le> maxInt then (decimal ds, None)
                    else (maxInt, Some (NumErrorRange ds)))"
proof -
  from assms obtain d ds' where ds: "ds = d # ds'" "isDigit d" by (cases ds) auto
  then have "d \<noteq> CHR ''-''" "d \<noteq> CHR ''+''" by (auto simp add: isDigit_def)
  with ds(1) have "\<not> prefix ''-'' ds" "\<not> prefix ''+'' ds" by auto
  with assms show ?thesis by (simp add: Atoi_def Let_def)
qed

lemma parseExperience_found:
  assumes "FindStringSubmatch experienceRegex s = Some (full, ds)"
    and "ds \<noteq> []" "list_all isDigit ds"
  shows "parseExperience s =
           (if decimal ds \<le> maxInt then (decimal ds, None)
            else (0, Some (ErrorParsingExperienceYears (NumErrorRange ds))))"
  using assms by (simp add: parseExperience_def Atoi_digits)

lemma FindStringSubmatch_experience_digits:
  assumes "FindStringSubmatch experienceRegex s = Some m"
  shows "snd m \<noteq> [] \<and> list_all isDigit (snd m)"
proof -
  from assms have "findLeftmost experienceRegex s = Some m" by (simp add: FindStringSubmatch_def)
  from findLeftmost_Some [OF this] obtain suf where "experienceRegex suf = Some m" by blast
  from experienceRegex_Some [OF this] show ?thesis by blast
qed

lemma parseExperience_range: "0 \<le> fst (parseExperience s) \<and> fst (parseExperience s) \<le> maxInt"
proof (cases "FindStringSubmatch experienceRegex s")
  case None
  then show ?thesis by (simp add: parseExperience_def maxInt_def)
next
  case (Some m)
  from FindStringSubmatch_experience_digits [OF Some]
  have d: "snd m \<noteq> []" "list_all isDigit (snd m)" by auto
  from Some have "FindStringSubmatch experienceRegex s = Some (fst m, snd m)" by simp
  from parseExperience_found [OF this d] decimal_nonneg [OF d(2)] show ?thesis
    by (simp add: maxInt_def)
qed

lemma parseExperience_no_match:
  assumes "\<forall>pre ds. \<not> experienceMatch s pre ds"
  shows "parseExperience s = (0, Some (ExperienceNotFound s))"
proof (cases "findLeftmost experienceRegex s")
  case None
  then show ?thesis by (simp add: parseExperience_def FindStringSubmatch_def)
next
  case (Some m)
  from findLeftmost_Some [OF Some] obtain pre suf where
    ps: "s = pre @ suf" "experienceRegex suf = Some m" by blast
  from experienceRegex_Some [OF ps(2)] ps(1) have "experienceMatch s pre (snd m)"
    by (auto simp add: experienceMatch_def)
  with assms show ?thesis by blast
qed

lemma parseExperience_leftmost:
  assumes m: "experienceMatch s pre ds"
    and least: "\<forall>pre' ds'. experienceMatch s pre' ds' \<longrightarrow> length pre \<le> length pre'"
  shows "parseExperience s =
           (if decimal ds \<le> maxInt then (decimal ds, None)
            else (0, Some (ErrorParsingExperienceYears (NumErrorRange ds))))"
proof -
  from m obtain ws post where
    s: "s = pre @ ds @ ws @ ''year'' @ post"
    and sh: "ds \<noteq> []" "list_all isDigit ds" "ws \<noteq> []" "list_all isSpaceRE ws"
    by (auto simp add: experienceMatch_def)
  from experienceRegex_shape [OF sh, of post] obtain full where
    here: "experienceRegex (ds @ ws @ ''year'' @ post) = Some (full, ds)" by blast
  have "\<forall>pre' suf'. pre @ (ds @ ws @ ''year'' @ post) = pre' @ suf' \<and> length pre' < length pre
          \<longrightarrow> experienceRegex suf' = None"
  proof (intro allI impI)
    fix pre' suf'
    assume a: "pre @ (ds @ ws @ ''year'' @ post) = pre' @ suf' \<and> length pre' < length pre"
    show "experienceRegex suf' = None"
    proof (cases "experienceRegex suf'")
      case None
      then show ?thesis .
    next
      case (Some m')
      from experienceRegex_Some [OF Some] a s have "experienceMatch s pre' (snd m')"
        by (auto simp add: experienceMatch_def)
      with least a show ?thesis by fastforce
    qed
  qed
  from findLeftmost_first [OF here this] s
  have "FindStringSubmatch experienceRegex s = Some (full, ds)"
    by (simp add: FindStringSubmatch_def)
  from parseExperience_found [OF this sh(1,2)] show ?thesis .
qed

subsection \<open>The pattern of the canonical profile link\<close>

lemma notDelim_iff: "notDelim c = (\<not> isDelim c)"
  by (simp add: notDelim_def isDelim_def)

lemma base_notDelim: "list_all notDelim linkedinBase"
  by (simp add: linkedinBase_def notDelim_def)

lemma profileLinkRegex_Some:
  assumes "profileLinkRegex t = Some m"
  shows "\<exists>tx rest. t = snd m @ rest \<and> fst m = snd m \<and> snd m = linkedinBase @ tx \<and> tx \<noteq> [] \<and>
           list_all notDelim tx \<and> list_all isDelim (take 1 rest)"
proof -
  let ?r = "drop (length linkedinBase) t"
  let ?tx = "takeWhile notDelim ?r" and ?rest = "dropWhile notDelim ?r"
  from assms have p: "prefix linkedinBase t" and ne: "?tx \<noteq> []"
    and m: "m = (linkedinBase @ ?tx, linkedinBase @ ?tx)"
    by (auto simp add: profileLinkRegex_def Let_def split: if_splits)
  from p have "t = linkedinBase @ ?r" by (auto simp add: prefix_def)
  then have t: "t = (linkedinBase @ ?tx) @ ?rest" by (metis append.assoc takeWhile_dropWhile_id)
  have la: "list_all notDelim ?tx" by (auto simp add: list_all_iff dest: set_takeWhileD)
  have ld: "list_all isDelim (take 1 ?rest)"
  proof (cases ?rest)
    case Nil
    show ?thesis unfolding Nil by simp
  next
    case (Cons d ds)
    then have "\<not> notDelim d" by (metis hd_dropWhile list.sel(1) list.distinct(1))
    with Cons show ?thesis by (simp add: notDelim_iff)
  qed
  have 1: "t = snd m @ ?rest" unfolding m snd_conv by (rule t)
  have 2: "fst m = snd m" unfolding m by simp
  have 3: "snd m = linkedinBase @ ?tx" unfolding m by simp
  show ?thesis using 1 2 3 ne la ld by blast
qed

lemma takeWhile_until_delim:
  assumes "list_all notDelim tx" "list_all isDelim (take 1 rest)"
  shows "takeWhile notDelim (tx @ rest) = tx"
proof (cases rest)
  case Nil
  with assms(1) show ?thesis by (simp add: list_all_iff)
next
  case (Cons d ds)
  with assms(2) have "\<not> notDelim d" by (simp add: notDelim_iff)
  with assms(1) Cons show ?thesis by (simp add: list_all_iff takeWhile_append2)
qed

lemma profileLinkRegex_shape:
  assumes "tx \<noteq> []" "list_all notDelim tx" "list_all isDelim (take 1 rest)"
  shows "profileLinkRegex (linkedinBase @ tx @ rest) = Some (linkedinBase @ tx, linkedinBase @ tx)"
  using assms by (simp add: profileLinkRegex_def Let_def takeWhile_until_delim)

lemma canonicalMatch_found:
  assumes "findLeftmost profileLinkRegex href = Some m"
  shows "\<exists>pre. canonicalMatch href pre (snd m) \<and> fst m = snd m \<and>
           (\<forall>pre' m'. canonicalMatch href pre' m' \<longrightarrow> length pre \<le> length pre')"
proof -
  from findLeftmost_Some [OF assms] obtain pre suf where
    ps: "href = pre @ suf" "profileLinkRegex suf = Some m"
    and least: "\<forall>pre' suf'. href = pre' @ suf' \<and> length pre' < length pre \<longrightarrow>
                  profileLinkRegex suf' = None"
    by blast
  from profileLinkRegex_Some [OF ps(2)] ps(1) have cm: "canonicalMatch href pre (snd m)" "fst m = snd m"
    by (auto simp add: canonicalMatch_def linkedinBase_def)
  have "\<forall>pre' m'. canonicalMatch href pre' m' \<longrightarrow> length pre \<le> length pre'"
  proof (intro allI impI)
    fix pre' m'
    assume "canonicalMatch href pre' m'"
    then obtain t rest where h: "href = pre' @ m' @ rest" "m' = linkedinBase @ t" "t \<noteq> []"
      "list_all notDelim t" "list_all isDelim (take 1 rest)"
      by (auto simp add: canonicalMatch_def linkedinBase_def)
    from profileLinkRegex_shape [OF h(3,4,5)] h(2)
    have ne: "profileLinkRegex (m' @ rest) \<noteq> None" by simp
    show "length pre \<le> length pre'"
    proof (rule ccontr)
      assume "\<not> length pre \<le> length pre'"
      then have "length pre' < length pre" by simp
      with least h(1) have "profileLinkRegex (m' @ rest) = None" by blast
      with ne show False by simp
    qed
  qed
  with cm show ?thesis by blast
qed

lemma canonicalMatch_leftmost:
  assumes cm: "canonicalMatch href pre m"
    and least: "\<forall>pre' m'. canonicalMatch href pre' m' \<longrightarrow> length pre \<le> length pre'"
  shows "FindStringSubmatch profileLinkRegex href = Some (m, m)"
proof -
  from cm obtain t rest where h: "href = pre @ m @ rest" "m = linkedinBase @ t" "t \<noteq> []"
    "list_all notDelim t" "list_all isDelim (take 1 rest)"
    by (auto simp add: canonicalMatch_def linkedinBase_def)
  from profileLinkRegex_shape [OF h(3,4,5)] h(2)
  have here: "profileLinkRegex (m @ rest) = Some (m, m)" by simp
  have "\<forall>pre' suf'. pre @ (m @ rest) = pre' @ suf' \<and> length pre' < length pre \<longrightarrow>
          profileLinkRegex suf' = None"
  proof (intro allI impI)
    fix pre' suf'
    assume a: "pre @ (m @ rest) = pre' @ suf' \<and> length pre' < length pre"
    show "profileLinkRegex suf' = None"
    proof (cases "profileLinkRegex suf'")
      case None
      then show ?thesis .
    next
      case (Some m')
      from profileLinkRegex_Some [OF Some] a h(1) have "canonicalMatch href pre' (snd m')"
        by (auto simp add: canonicalMatch_def linkedinBase_def)
      with least a show ?thesis by fastforce
    qed
  qed
  from findLeftmost_first [OF here this] h(1) show ?thesis
    by (simp add: FindStringSubmatch_def)
qed

lemma canonicalMatch_none:
  assumes "\<forall>pre m. \<not> canonicalMatch href pre m"
  shows "FindStringSubmatch profileLinkRegex href = None"
proof (cases "findLeftmost profileLinkRegex href")
  case None
  then show ?thesis by (simp add: FindStringSubmatch_def)
next
  case (Some m)
  from canonicalMatch_found [OF Some] assms show ?thesis by blast
qed

lemma canonicalMatch_prefix:
  assumes "canonicalMatch href [] m"
  shows "m = takeWhile notDelim href"
proof -
  from assms obtain t rest where h: "href = m @ rest" "m = linkedinBase @ t"
    "list_all notDelim t" "list_all isDelim (take 1 rest)"
    by (auto simp add: canonicalMatch_def linkedinBase_def)
  from h(2,3) base_notDelim have "list_all notDelim m" by simp
  from takeWhile_until_delim [OF this h(4)] h(1) show ?thesis by simp
qed

subsection \<open>Page-level extraction\<close>

lemma eachContainer_append: "eachContainer acc c = acc @ eachContainer [] c"
  by (simp add: eachContainer_def Let_def split: option.splits)

lemma foldl_eachContainer:
  "foldl eachContainer acc cs = acc @ concat (map (eachContainer []) cs)"
proof (induction cs arbitrary: acc)
  case Nil
  show ?case by simp
next
  case (Cons c cs)
  have "foldl eachContainer acc (c # cs) = foldl eachContainer (eachContainer acc c) cs" by simp
  also have "\<dots> = eachContainer acc c @ concat (map (eachContainer []) cs)" by (rule Cons.IH)
  also have "\<dots> = acc @ concat (map (eachContainer []) (c # cs))"
    using eachContainer_append [of acc c] by simp
  finally show ?case .
qed

lemma scrape_concat:
  "fst (scrapeGoogleSearchResults doc) = concat (map (eachContainer []) (resultContainers doc))"
  using foldl_eachContainer [of "[]"] by (simp add: scrapeGoogleSearchResults_def)

lemma scrape_single: "fst (scrapeGoogleSearchResults (single c)) = eachContainer [] c"
  by (simp add: scrape_concat single_def)

lemma eachContainer_wellFormed:
  "wellFormed c \<Longrightarrow>
   \<exists>href m. Attr (profileLinkHrefs c) = Some href \<and>
     FindStringSubmatch profileLinkRegex href = Some m \<and>
     eachContainer [] c =
       [\<lparr>Name = TrimSpace (Text (nameTexts c)),
         Email = extractRegex (Text (snippetTexts c)) emailRegex,
         Phone = extractRegex (Text (snippetTexts c)) phoneRegex,
         ProfileURL = snd m,
         Experience = fst (parseExperience (Text (snippetTexts c)))\<rparr>]"
  by (auto simp add: wellFormed_def eachContainer_def Let_def split: option.splits)

lemma eachContainer_not_wellFormed: "\<not> wellFormed c \<Longrightarrow> eachContainer [] c = []"
  by (auto simp add: wellFormed_def eachContainer_def Let_def split: option.splits)

lemma eachContainer_length: "length (eachContainer [] c) = (if wellFormed c then 1 else 0)"
  using eachContainer_wellFormed [of c] eachContainer_not_wellFormed [of c] by auto

lemma scrape_length:
  "length (concat (map (eachContainer []) cs)) = length (filter wellFormed cs)"
  by (induction cs) (simp_all add: eachContainer_length)

lemma TrimSpace_Nil: "TrimSpace [] = []"
  by (simp add: TrimSpace_def)

lemma sample_wf: "wellFormed johnContainer" "wellFormed annContainer" "missingLink noLinkContainer"
  by (simp_all add: wellFormed_def missingLink_def johnContainer_def annContainer_def noLinkContainer_def Attr_def regex_defs char_defs Let_def)

lemma sample_scrape: "fst (scrapeGoogleSearchResults samplePage) =
   [\<lparr>Name = ''John Doe'', Email = ''j.doe@acme.com'', Phone = ''(555) 123-4567'', ProfileURL = johnURL, Experience = 0\<rparr>,
    \<lparr>Name = [], Email = [], Phone = [], ProfileURL = annURL, Experience = 12\<rparr>]"
  by (simp add: scrapeGoogleSearchResults_def samplePage_def eachContainer_def johnContainer_def annContainer_def noLinkContainer_def Attr_def Text_def TrimSpace_def
     parseExperience_def Atoi_def decimal_def digitVal_def maxInt_def minInt_def regex_defs char_defs Let_def johnURL_def annURL_def)

text \<open>
  Extraction in terms of the guard of the closure: the records of a document are the
  records of its containers in document order, one for each container that passes the
  guard.
\<close>

lemma extraction_by_guard:
  "fst (scrapeGoogleSearchResults doc) =
     concat (map (\<lambda>c. fst (scrapeGoogleSearchResults (single c))) (resultContainers doc)) \<and>
   snd (scrapeGoogleSearchResults doc) = None \<and>
   length (fst (scrapeGoogleSearchResults doc)) = length (filter wellFormed (resultContainers doc)) \<and>
   (wellFormed c \<longrightarrow> length (fst (scrapeGoogleSearchResults (single c))) = 1) \<and>
   (missingLink d \<longrightarrow> fst (scrapeGoogleSearchResults (single d)) = []) \<and>
   (wellFormed e \<and> nameTexts e = [] \<longrightarrow>
      map Name (fst (scrapeGoogleSearchResults (single e))) = [[]])"
proof -
  have 1: "fst (scrapeGoogleSearchResults doc) =
     concat (map (\<lambda>c. fst (scrapeGoogleSearchResults (single c))) (resultContainers doc))"
    unfolding scrape_single by (simp add: scrape_concat)
  have 2: "snd (scrapeGoogleSearchResults doc) = None"
    by (simp add: scrapeGoogleSearchResults_def)
  have 3: "length (fst (scrapeGoogleSearchResults doc)) =
             length (filter wellFormed (resultContainers doc))"
    by (simp add: scrape_concat scrape_length)
  have 4: "wellFormed c \<longrightarrow> length (fst (scrapeGoogleSearchResults (single c))) = 1"
    by (simp add: scrape_single eachContainer_length)
  have 5: "missingLink d \<longrightarrow> fst (scrapeGoogleSearchResults (single d)) = []"
    by (simp add: scrape_single missingLink_def eachContainer_def)
  have 6: "wellFormed e \<and> nameTexts e = [] \<longrightarrow>
      map Name (fst (scrapeGoogleSearchResults (single e))) = [[]]"
    using eachContainer_wellFormed [of e] by (auto simp add: scrape_single Text_def TrimSpace_Nil)
  from 1 2 3 4 5 6 show ?thesis by blast
qed

lemmas sample_defs = johnContainer_def annContainer_def noLinkContainer_def samplePage_def
  johnURL_def annURL_def

lemma sample_scrape_full:
  "scrapeGoogleSearchResults samplePage =
     ([\<lparr>Name = ''John Doe'', Email = ''j.doe@acme.com'', Phone = ''(555) 123-4567'',
        ProfileURL = johnURL, Experience = 0\<rparr>,
       \<lparr>Name = [], Email = [], Phone = [], ProfileURL = annURL, Experience = 12\<rparr>], None)"
  using sample_scrape by (simp add: scrapeGoogleSearchResults_def)

lemma eachContainer_member:
  assumes "r \<in> set (eachContainer [] c)"
  shows "\<exists>href m. FindStringSubmatch profileLinkRegex href = Some m \<and> ProfileURL r = snd m \<and>
           Experience r = fst (parseExperience (Text (snippetTexts c)))"
proof (cases "wellFormed c")
  case True
  from eachContainer_wellFormed [OF True] obtain href m where
    "FindStringSubmatch profileLinkRegex href = Some m"
    and "eachContainer [] c =
       [\<lparr>Name = TrimSpace (Text (nameTexts c)),
         Email = extractRegex (Text (snippetTexts c)) emailRegex,
         Phone = extractRegex (Text (snippetTexts c)) phoneRegex,
         ProfileURL = snd m,
         Experience = fst (parseExperience (Text (snippetTexts c)))\<rparr>]"
    by blast
  with assms show ?thesis by (intro exI [of _ href] exI [of _ m]) simp
next
  case False
  from eachContainer_not_wellFormed [OF False] assms show ?thesis by simp
qed

lemma captured_link:
  assumes "FindStringSubmatch profileLinkRegex href = Some m"
  shows "prefix linkedinBase (snd m) \<and> list_all notDelim (snd m)"
proof -
  from assms have "findLeftmost profileLinkRegex href = Some m" by (simp add: FindStringSubmatch_def)
  from findLeftmost_Some [OF this] obtain suf where "profileLinkRegex suf = Some m" by blast
  from profileLinkRegex_Some [OF this] base_notDelim show ?thesis by auto
qed

text \<open>
  Claim C9. Every record that page-level extraction emits has a ProfileURL that begins
  with \<open>https://www.linkedin.com/in/\<close> and contains neither \<open>&\<close> nor \<open>?\<close>, and an
  Experience that is not negative (and within the range of Go's \<open>int\<close>).
\<close>

theorem extracted_record_invariant:
  "\<forall>r \<in> set (fst (scrapeGoogleSearchResults doc)).
     prefix ''https://www.linkedin.com/in/'' (ProfileURL r) \<and>
     CHR ''&'' \<notin> set (ProfileURL r) \<and> CHR ''?'' \<notin> set (ProfileURL r) \<and>
     0 \<le> Experience r \<and> Experience r \<le> maxInt"
proof
  fix r
  assume "r \<in> set (fst (scrapeGoogleSearchResults doc))"
  then obtain c where "r \<in> set (eachContainer [] c)" by (auto simp add: scrape_concat)
  from eachContainer_member [OF this] obtain href m where
    m: "FindStringSubmatch profileLinkRegex href = Some m" "ProfileURL r = snd m"
    and e: "Experience r = fst (parseExperience (Text (snippetTexts c)))" by blast
  from captured_link [OF m(1)] m(2)
  have "prefix linkedinBase (ProfileURL r)" "list_all notDelim (ProfileURL r)" by auto
  moreover from e parseExperience_range have "0 \<le> Experience r \<and> Experience r \<le> maxInt" by simp
  ultimately show "prefix ''https://www.linkedin.com/in/'' (ProfileURL r) \<and>
     CHR ''&'' \<notin> set (ProfileURL r) \<and> CHR ''?'' \<notin> set (ProfileURL r) \<and>
     0 \<le> Experience r \<and> Experience r \<le> maxInt"
    by (auto simp add: linkedinBase_def list_all_iff notDelim_def)
qed

theorem extracted_record_invariant_witness:
  "fst (scrapeGoogleSearchResults samplePage) =
     [\<lparr>Name = ''John Doe'', Email = ''j.doe@acme.com'', Phone = ''(555) 123-4567'',
       ProfileURL = ''https://www.linkedin.com/in/john-doe'', Experience = 0\<rparr>,
      \<lparr>Name = [], Email = [], Phone = [], ProfileURL = ''https://www.linkedin.com/in/ann'',
       Experience = 12\<rparr>] \<and>
   prefix ''https://www.linkedin.com/in/'' ''https://www.linkedin.com/in/john-doe'' \<and>
   CHR ''&'' \<notin> set ''https://www.linkedin.com/in/john-doe'' \<and>
   CHR ''?'' \<notin> set ''https://www.linkedin.com/in/john-doe'' \<and>
   prefix ''https://www.linkedin.com/in/'' ''https://www.linkedin.com/in/ann'' \<and>
   CHR ''&'' \<notin> set ''https://www.linkedin.com/in/ann'' \<and>
   CHR ''?'' \<notin> set ''https://www.linkedin.com/in/ann'' \<and>
   (0::int) \<le> 12 \<and> (12::int) \<le> maxInt"
  using extracted_record_invariant [of samplePage] sample_scrape
  by (simp add: johnURL_def annURL_def)

subsection \<open>The stored profile link\<close>

lemma canonicalMatch_exists:
  assumes "canonicalMatch href pre m"
  shows "FindStringSubmatch profileLinkRegex href \<noteq> None"
proof
  assume "FindStringSubmatch profileLinkRegex href = None"
  then have n: "findLeftmost profileLinkRegex href = None" by (simp add: FindStringSubmatch_def)
  from assms obtain t rest where h: "href = pre @ m @ rest" "m = linkedinBase @ t" "t \<noteq> []"
    "list_all notDelim t" "list_all isDelim (take 1 rest)"
    by (auto simp add: canonicalMatch_def linkedinBase_def)
  from profileLinkRegex_shape [OF h(3,4,5)] h(2)
  have "profileLinkRegex (m @ rest) = Some (m, m)" by simp
  with findLeftmost_None [OF n h(1)] show False by simp
qed

lemma johnHref_match: "canonicalMatch johnHref ''/url?q='' johnURL"
  unfolding canonicalMatch_def
  by (intro exI [of _ "''john-doe''"] exI [of _ "''&sa=U''"])
     (simp add: johnHref_def johnURL_def notDelim_def isDelim_def)

lemma johnHref_leftmost:
  "\<forall>pre' m'. canonicalMatch johnHref pre' m' \<longrightarrow> length ''/url?q='' \<le> length pre'"
proof (intro allI impI)
  fix pre' m'
  assume "canonicalMatch johnHref pre' m'"
  then obtain rest where h: "johnHref = pre' @ linkedinBase @ rest"
    by (auto simp add: canonicalMatch_def linkedinBase_def)
  then have "drop (length pre') johnHref = linkedinBase @ rest"
    by (metis append_eq_conv_conj)
  then have p: "prefix linkedinBase (drop (length pre') johnHref)" by simp
  show "length ''/url?q='' \<le> length pre'"
  proof (rule ccontr)
    assume "\<not> length ''/url?q='' \<le> length pre'"
    then have "length pre' < 7" by simp
    then have "length pre' = 0 \<or> length pre' = 1 \<or> length pre' = 2 \<or> length pre' = 3 \<or>
               length pre' = 4 \<or> length pre' = 5 \<or> length pre' = 6"
      by arith
    with p show False
      by (auto simp add: johnHref_def linkedinBase_def)
  qed
qed

lemma foreign_no_match: "\<forall>pre m. \<not> canonicalMatch ''https://in.linkedin.com/in/bob'' pre m"
proof (intro allI notI)
  fix pre m
  assume "canonicalMatch ''https://in.linkedin.com/in/bob'' pre m"
  from canonicalMatch_exists [OF this] show False
    by (simp add: regex_defs char_defs Let_def)
qed

text \<open>
  Claim C7, in the form in which it holds. The pattern is not anchored at the start of the link. When
  \<open>canonicalMatch href pre m\<close> holds at the leftmost place \<open>pre\<close> where it holds at all,
  the record of the container stores \<open>m\<close>: the canonical base and the characters after it
  up to, and excluding, the next \<open>&\<close> or \<open>?\<close> or the end of the link. When that place
  is the start of the link, \<open>m\<close> is the prefix of the link up to its first \<open>&\<close> or \<open>?\<close>.
  When the pattern matches nowhere in the link, the container gives no record.
\<close>

theorem stored_link_is_leftmost_canonical_match:
  "(Attr (profileLinkHrefs c) = Some href \<and> canonicalMatch href pre m \<and>
      (\<forall>pre' m'. canonicalMatch href pre' m' \<longrightarrow> length pre \<le> length pre') \<longrightarrow>
      map ProfileURL (fst (scrapeGoogleSearchResults (single c))) = [m]) \<and>
   (canonicalMatch href [] m \<longrightarrow> m = takeWhile notDelim href) \<and>
   (Attr (profileLinkHrefs c) = Some href \<and> (\<forall>pre m. \<not> canonicalMatch href pre m) \<longrightarrow>
      fst (scrapeGoogleSearchResults (single c)) = [])"
proof -
  have 1: "Attr (profileLinkHrefs c) = Some href \<and> canonicalMatch href pre m \<and>
      (\<forall>pre' m'. canonicalMatch href pre' m' \<longrightarrow> length pre \<le> length pre') \<longrightarrow>
      map ProfileURL (fst (scrapeGoogleSearchResults (single c))) = [m]"
  proof
    assume a: "Attr (profileLinkHrefs c) = Some href \<and> canonicalMatch href pre m \<and>
      (\<forall>pre' m'. canonicalMatch href pre' m' \<longrightarrow> length pre \<le> length pre')"
    then have "FindStringSubmatch profileLinkRegex href = Some (m, m)"
      using canonicalMatch_leftmost [of href pre m] by blast
    with a show "map ProfileURL (fst (scrapeGoogleSearchResults (single c))) = [m]"
      by (simp add: scrape_single eachContainer_def Let_def)
  qed
  have 2: "canonicalMatch href [] m \<longrightarrow> m = takeWhile notDelim href"
    using canonicalMatch_prefix by blast
  have 3: "Attr (profileLinkHrefs c) = Some href \<and> (\<forall>pre m. \<not> canonicalMatch href pre m) \<longrightarrow>
      fst (scrapeGoogleSearchResults (single c)) = []"
  proof
    assume a: "Attr (profileLinkHrefs c) = Some href \<and> (\<forall>pre m. \<not> canonicalMatch href pre m)"
    then have "FindStringSubmatch profileLinkRegex href = None"
      using canonicalMatch_none [of href] by blast
    with a show "fst (scrapeGoogleSearchResults (single c)) = []"
      by (simp add: scrape_single eachContainer_def)
  qed
  from 1 2 3 show ?thesis by blast
qed

theorem stored_link_is_leftmost_canonical_match_witness:
  "Attr (profileLinkHrefs johnContainer) = Some johnHref \<and>
   canonicalMatch johnHref ''/url?q='' johnURL \<and>
   map ProfileURL (fst (scrapeGoogleSearchResults (single johnContainer))) = [johnURL] \<and>
   canonicalMatch ''https://www.linkedin.com/in/ann?trk=x'' [] annURL \<and>
   annURL = takeWhile notDelim ''https://www.linkedin.com/in/ann?trk=x'' \<and>
   Attr (profileLinkHrefs foreignContainer) = Some ''https://in.linkedin.com/in/bob'' \<and>
   fst (scrapeGoogleSearchResults (single foreignContainer)) = []"
proof -
  have a: "Attr (profileLinkHrefs johnContainer) = Some johnHref"
    by (simp add: johnContainer_def johnHref_def Attr_def)
  have b: "canonicalMatch ''https://www.linkedin.com/in/ann?trk=x'' [] annURL"
    unfolding canonicalMatch_def
    by (intro exI [of _ "''ann''"] exI [of _ "''?trk=x''"])
       (simp add: annURL_def notDelim_def isDelim_def)
  have c: "Attr (profileLinkHrefs foreignContainer) = Some ''https://in.linkedin.com/in/bob''"
    by (simp add: foreignContainer_def Attr_def)
  show ?thesis
    using a b c johnHref_match johnHref_leftmost foreign_no_match
      stored_link_is_leftmost_canonical_match [of johnContainer johnHref "''/url?q=''" johnURL]
      stored_link_is_leftmost_canonical_match
        [of annContainer "''https://www.linkedin.com/in/ann?trk=x''" "[]" annURL]
      stored_link_is_leftmost_canonical_match
        [of foreignContainer "''https://in.linkedin.com/in/bob''" "[]" annURL]
    by blast
qed

text \<open>
  Claim C7 as it is stated fails on a link that the search engine wraps in a redirect:
  the stored link starts inside the link, after its first \<open>?\<close>, and is not the prefix of
  the link up to the first delimiter (which is \<open>/url\<close>).
\<close>

theorem stored_link_not_prefix_of_href:
  "Attr (profileLinkHrefs johnContainer) = Some ''/url?q=https://www.linkedin.com/in/john-doe&sa=U'' \<and>
   map ProfileURL (fst (scrapeGoogleSearchResults (single johnContainer))) =
     [''https://www.linkedin.com/in/john-doe''] \<and>
   takeWhile notDelim ''/url?q=https://www.linkedin.com/in/john-doe&sa=U'' = ''/url'' \<and>
   \<not> prefix ''https://www.linkedin.com/in/john-doe''
       ''/url?q=https://www.linkedin.com/in/john-doe&sa=U''"
  by (simp add: scrape_single eachContainer_def johnContainer_def Attr_def regex_defs char_defs
      Let_def)

subsection \<open>The experience field\<close>

lemma experienceMatch_digit:
  assumes "experienceMatch s pre ds"
  shows "list_ex isDigit s"
proof -
  from assms obtain ws post where s: "s = pre @ ds @ ws @ ''year'' @ post" and d: "ds \<noteq> []"
    "list_all isDigit ds"
    by (auto simp add: experienceMatch_def)
  from d obtain c where "c \<in> set ds" "isDigit c" by (cases ds) auto
  with s show ?thesis by (auto simp add: list_ex_iff)
qed

text \<open>
  Claim C4, in the form in which it holds. When the snippet has a match of the pattern, the one that starts
  leftmost decides: \<open>parseExperience\<close> returns its number if that is in the range of
  \<open>int\<close>, and otherwise 0 with the range error of \<open>strconv.Atoi\<close>. When the snippet has no
  match, \<open>parseExperience\<close> returns 0 and the error \<open>ExperienceNotFound\<close>. Either way the
  error is a value that \<open>scrapeGoogleSearchResults\<close> drops: a well-formed container gives
  its record, with the first component of the result as Experience, and extraction itself
  returns no error.
\<close>

theorem experience_is_leftmost_number_or_zero:
  "(experienceMatch s pre ds \<and>
      (\<forall>pre' ds'. experienceMatch s pre' ds' \<longrightarrow> length pre \<le> length pre') \<longrightarrow>
      parseExperience s =
        (if decimal ds \<le> maxInt then (decimal ds, None)
         else (0, Some (ErrorParsingExperienceYears (NumErrorRange ds))))) \<and>
   ((\<forall>pre ds. \<not> experienceMatch s pre ds) \<longrightarrow>
      parseExperience s = (0, Some (ExperienceNotFound s))) \<and>
   (wellFormed c \<longrightarrow>
      map Experience (fst (scrapeGoogleSearchResults (single c))) =
        [fst (parseExperience (Text (snippetTexts c)))]) \<and>
   snd (scrapeGoogleSearchResults doc) = None"
proof -
  have 1: "experienceMatch s pre ds \<and>
      (\<forall>pre' ds'. experienceMatch s pre' ds' \<longrightarrow> length pre \<le> length pre') \<longrightarrow>
      parseExperience s =
        (if decimal ds \<le> maxInt then (decimal ds, None)
         else (0, Some (ErrorParsingExperienceYears (NumErrorRange ds))))"
    using parseExperience_leftmost [of s pre ds] by blast
  have 2: "(\<forall>pre ds. \<not> experienceMatch s pre ds) \<longrightarrow>
      parseExperience s = (0, Some (ExperienceNotFound s))"
    using parseExperience_no_match [of s] by blast
  have 3: "wellFormed c \<longrightarrow>
      map Experience (fst (scrapeGoogleSearchResults (single c))) =
        [fst (parseExperience (Text (snippetTexts c)))]"
    using eachContainer_wellFormed [of c] by (auto simp add: scrape_single)
  have 4: "snd (scrapeGoogleSearchResults doc) = None"
    by (simp add: scrapeGoogleSearchResults_def)
  from 1 2 3 4 show ?thesis by blast
qed

theorem experience_is_leftmost_number_or_zero_witness:
  "experienceMatch ''5 years'' [] ''5'' \<and>
   parseExperience ''5 years'' = (5, None) \<and>
   parseExperience ''five years'' = (0, Some (ExperienceNotFound ''five years'')) \<and>
   wellFormed johnContainer \<and>
   map Experience (fst (scrapeGoogleSearchResults (single johnContainer))) =
     [fst (parseExperience (Text (snippetTexts johnContainer)))]"
proof -
  have m: "experienceMatch ''5 years'' [] ''5''"
    unfolding experienceMatch_def
    by (intro exI [of _ "'' ''"] exI [of _ "''s''"]) (simp add: isDigit_def isSpaceRE_def)
  have l: "\<forall>pre' ds'. experienceMatch ''5 years'' pre' ds' \<longrightarrow> length ([]::string) \<le> length pre'"
    by simp
  have n: "\<forall>pre ds. \<not> experienceMatch ''five years'' pre ds"
  proof (intro allI notI)
    fix pre ds
    assume "experienceMatch ''five years'' pre ds"
    from experienceMatch_digit [OF this] show False by (simp add: isDigit_def)
  qed
  have d: "decimal ''5'' = 5" by (simp add: decimal_def digitVal_def)
  show ?thesis
    using m l n d sample_wf(1)
      experience_is_leftmost_number_or_zero [of "''5 years''" "[]" "''5''" johnContainer samplePage]
      experience_is_leftmost_number_or_zero [of "''five years''" "[]" "''5''" johnContainer samplePage]
    by (simp add: maxInt_def)
qed

text \<open>
  Claim C4 as it is stated says that the parse failure is logged. On a page whose first
  snippet has no match (and whose profiles are fetched without error) the failure leaves no
  entry in the log: the whole pass over the page logs nothing, and prints its progress
  only. And a snippet that matches
  the pattern with a number beyond the range of \<open>int\<close> leaves the field at 0.
\<close>

theorem experience_failure_not_logged:
  "parseExperience ''five years at ACME, j.doe@acme.com, (555) 123-4567'' =
     (0, Some (ExperienceNotFound ''five years at ACME, j.doe@acme.com, (555) 123-4567'')) \<and>
   fst (scrapePage pageWorld searchURL0 0 [] emptyState) =
     Some [\<lparr>Name = ''John D.'', Email = ''john@doe.org'', Phone = ''555-123-4567'',
             ProfileURL = johnURL, Experience = 0\<rparr>,
           \<lparr>Name = ''John D.'', Email = ''john@doe.org'', Phone = ''555-123-4567'',
             ProfileURL = annURL, Experience = 12\<rparr>] \<and>
   logsOf (trace (snd (scrapePage pageWorld searchURL0 0 [] emptyState))) = [] \<and>
   printsOf (trace (snd (scrapePage pageWorld searchURL0 0 [] emptyState))) =
     [ScrapingGooglePage 1, WaitingBeforePage 5 1, ScrapingDetails 1 johnURL,
      ScrapingDetails 2 annURL] \<and>
   parseExperience ''99999999999999999999 years'' =
     (0, Some (ErrorParsingExperienceYears (NumErrorRange ''99999999999999999999'')))"
proof -
  have 1: "parseExperience ''five years at ACME, j.doe@acme.com, (555) 123-4567'' =
     (0, Some (ExperienceNotFound ''five years at ACME, j.doe@acme.com, (555) 123-4567''))"
    by (simp add: parseExperience_def regex_defs char_defs Let_def)
  have 2: "parseExperience ''99999999999999999999 years'' =
     (0, Some (ErrorParsingExperienceYears (NumErrorRange ''99999999999999999999'')))"
    by (simp add: parseExperience_def Atoi_def decimal_def digitVal_def maxInt_def minInt_def
        regex_defs char_defs Let_def)
  have 3: "fst (scrapePage pageWorld searchURL0 0 [] emptyState) =
     Some [\<lparr>Name = ''John D.'', Email = ''john@doe.org'', Phone = ''555-123-4567'',
             ProfileURL = johnURL, Experience = 0\<rparr>,
           \<lparr>Name = ''John D.'', Email = ''john@doe.org'', Phone = ''555-123-4567'',
             ProfileURL = annURL, Experience = 12\<rparr>]"
    by (simp add: scrapePage_def pageURLOf_def fetchPage_unfold fetchAttempt_def
        enrichCandidate_def scrapeProfileDetails_def pageWorld_def parserOf_def Let_def
        world_defs effect_defs sample_scrape_full sampleProfile_simps)
  have 4: "logsOf (trace (snd (scrapePage pageWorld searchURL0 0 [] emptyState))) = []"
    by (simp add: scrapePage_def pageURLOf_def fetchPage_unfold fetchAttempt_def
        enrichCandidate_def scrapeProfileDetails_def pageWorld_def parserOf_def Let_def
        world_defs effect_defs sample_scrape_full sampleProfile_simps)
  have 5: "printsOf (trace (snd (scrapePage pageWorld searchURL0 0 [] emptyState))) =
     [ScrapingGooglePage 1, WaitingBeforePage 5 1, ScrapingDetails 1 johnURL,
      ScrapingDetails 2 annURL]"
    by (simp add: scrapePage_def pageURLOf_def fetchPage_unfold fetchAttempt_def
        enrichCandidate_def scrapeProfileDetails_def pageWorld_def parserOf_def Let_def
        world_defs effect_defs sample_scrape_full sampleProfile_simps)
  from 1 2 3 4 5 show ?thesis by blast
qed

subsection \<open>The output file\<close>

lemma readCSV_bare:
  "list_all bareChar g \<Longrightarrow> readCSV Bare field rw (g @ rest) = readCSV Bare (field @ g) rw rest"
  by (induction g arbitrary: field) (auto simp add: bareChar_def)

lemma readCSV_quoted:
  "readCSV Quoted field rw
     (concat (map (\<lambda>c. if c = dquote then [dquote, dquote] else [c]) g) @ rest) =
   readCSV Quoted (field @ g) rw rest"
  by (induction g arbitrary: field) auto

lemma not_quoted_bare:
  assumes "\<not> fieldNeedsQuotes f"
  shows "list_all bareChar f"
proof (cases "f = []")
  case True
  then show ?thesis by simp
next
  case False
  with assms have "\<not> list_ex (\<lambda>c. c = LF \<or> c = CR \<or> c = dquote \<or> c = comma) f"
    by (auto simp add: fieldNeedsQuotes_def split: if_splits)
  then show ?thesis by (auto simp add: list_all_iff list_ex_iff bareChar_def)
qed

lemma readCSV_field_comma:
  "readCSV FieldStart [] rw (writeField f @ comma # rest) = readCSV FieldStart [] (rw @ [f]) rest"
proof (cases "fieldNeedsQuotes f")
  case True
  then show ?thesis
    using readCSV_quoted [of "[]" rw f "dquote # comma # rest"]
    by (simp add: writeField_def quoteField_def comma_def dquote_def)
next
  case False
  from not_quoted_bare [OF this] have b: "list_all bareChar f" .
  show ?thesis
  proof (cases f)
    case Nil
    with False show ?thesis by (simp add: writeField_def comma_def dquote_def)
  next
    case (Cons c g)
    with b have c: "bareChar c" and g: "list_all bareChar g" by auto
    from readCSV_bare [OF g, of "[c]" rw "comma # rest"] c Cons False show ?thesis
      by (simp add: writeField_def bareChar_def comma_def dquote_def LF_def CR_def)
  qed
qed

lemma readCSV_field_LF:
  "readCSV FieldStart [] rw (writeField f @ LF # rest) =
     map_option (Cons (rw @ [f])) (readCSV FieldStart [] [] rest)"
proof (cases "fieldNeedsQuotes f")
  case True
  then show ?thesis
    using readCSV_quoted [of "[]" rw f "dquote # LF # rest"]
    by (simp add: writeField_def quoteField_def comma_def dquote_def LF_def)
next
  case False
  from not_quoted_bare [OF this] have b: "list_all bareChar f" .
  show ?thesis
  proof (cases f)
    case Nil
    with False show ?thesis by (simp add: writeField_def comma_def dquote_def LF_def)
  next
    case (Cons c g)
    with b have c: "bareChar c" and g: "list_all bareChar g" by auto
    from readCSV_bare [OF g, of "[c]" rw "LF # rest"] c Cons False show ?thesis
      by (simp add: writeField_def bareChar_def comma_def dquote_def LF_def CR_def)
  qed
qed

lemma readCSV_record:
  "fs \<noteq> [] \<Longrightarrow>
   readCSV FieldStart [] rw (writeFields fs @ LF # rest) =
     map_option (Cons (rw @ fs)) (readCSV FieldStart [] [] rest)"
proof (induction fs arbitrary: rw rule: writeFields.induct)
  case 1
  then show ?case by simp
next
  case (2 f)
  show ?case using readCSV_field_LF [of rw f rest] by simp
next
  case (3 f g fs)
  have "readCSV FieldStart [] rw (writeFields (f # g # fs) @ LF # rest) =
        readCSV FieldStart [] rw (writeField f @ comma # (writeFields (g # fs) @ LF # rest))"
    by simp
  also have "\<dots> = readCSV FieldStart [] (rw @ [f]) (writeFields (g # fs) @ LF # rest)"
    by (rule readCSV_field_comma)
  also have "\<dots> = map_option (Cons ((rw @ [f]) @ g # fs)) (readCSV FieldStart [] [] rest)"
    by (rule "3.IH") simp
  finally show ?case by simp
qed

lemma parseCSV_rows:
  "list_all (\<lambda>r. r \<noteq> []) rows \<Longrightarrow> parseCSV (concat (map csvWrite rows)) = Some rows"
proof (induction rows)
  case Nil
  show ?case by (simp add: parseCSV_def)
next
  case (Cons r rows)
  then have r: "r \<noteq> []" and IH: "readCSV FieldStart [] [] (concat (map csvWrite rows)) = Some rows"
    by (auto simp add: parseCSV_def)
  have e: "concat (map csvWrite (r # rows)) = writeFields r @ LF # concat (map csvWrite rows)"
    by (simp add: csvWrite_def)
  show ?case
    unfolding parseCSV_def e
    using readCSV_record [OF r, of "[]" "concat (map csvWrite rows)"] IH by simp
qed

lemma csvOutput_concat:
  "csvOutput candidates = concat (map csvWrite (header # map row candidates))"
proof -
  have "foldl (\<lambda>out candidate. out @ csvWrite (row candidate)) acc cs =
        acc @ concat (map csvWrite (map row cs))" for acc cs
    by (induction cs arbitrary: acc) simp_all
  then show ?thesis by (simp add: csvOutput_def)
qed

lemma parseCSV_csvOutput: "parseCSV (csvOutput candidates) = Some (header # map row candidates)"
proof -
  have "list_all (\<lambda>r. r \<noteq> []) (header # map row candidates)"
    by (simp add: header_def row_def list_all_iff)
  from parseCSV_rows [OF this] show ?thesis by (simp add: csvOutput_concat)
qed

lemma digitChar_digit: "d < 10 \<Longrightarrow> isDigit (digitChar d) \<and> digitVal (digitChar d) = int d"
proof -
  assume "d < 10"
  then have "d = 0 \<or> d = 1 \<or> d = 2 \<or> d = 3 \<or> d = 4 \<or> d = 5 \<or> d = 6 \<or> d = 7 \<or> d = 8 \<or> d = 9"
    by arith
  then show ?thesis
    by (auto simp add: digitChar_def isDigit_def digitVal_def)
qed

lemma decimal_snoc: "decimal (ds @ [d]) = 10 * decimal ds + digitVal d"
  by (simp add: decimal_def)

declare natDigits.simps [simp del]

lemma natDigits_decimal:
  "natDigits n \<noteq> [] \<and> list_all isDigit (natDigits n) \<and> decimal (natDigits n) = int n"
proof (induction n rule: natDigits.induct)
  case (1 n)
  show ?case
  proof (cases "n < 10")
    case True
    with digitChar_digit [of n] show ?thesis
      by (subst (1 2 3) natDigits.simps) (simp add: decimal_def)
  next
    case False
    from "1.IH" [OF False] have IH: "list_all isDigit (natDigits (n div 10))"
      "decimal (natDigits (n div 10)) = int (n div 10)" by auto
    have m: "n mod 10 < 10" by simp
    have e: "10 * int (n div 10) + int (n mod 10) = int n" by presburger
    from digitChar_digit [OF m] IH False e show ?thesis
      by (subst (1 2 3) natDigits.simps) (simp add: decimal_snoc)
  qed
qed

lemma Atoi_Itoa:
  assumes "isGoInt i"
  shows "Atoi (Itoa i) = (i, None)"
proof (cases "i < 0")
  case False
  from natDigits_decimal [of "nat i"] False
  have d: "natDigits (nat i) \<noteq> []" "list_all isDigit (natDigits (nat i))"
    "decimal (natDigits (nat i)) = i" by auto
  from Atoi_digits [OF d(1,2)] d(3) assms False show ?thesis
    by (simp add: Itoa_def isGoInt_def)
next
  case True
  let ?ds = "natDigits (nat (- i))"
  from natDigits_decimal [of "nat (- i)"] True
  have d: "?ds \<noteq> []" "list_all isDigit ?ds" "decimal ?ds = - i" by auto
  from assms have "- i \<le> - minInt" by (simp add: isGoInt_def)
  with d True show ?thesis
    by (simp add: Atoi_def Itoa_def Let_def)
qed

lemma candidateOfRow_row:
  assumes "isGoInt (Experience c)"
  shows "candidateOfRow (row c) = Some c"
  using Atoi_Itoa [OF assms] by (simp add: candidateOfRow_def row_def)

lemma readCandidates_csvOutput:
  assumes "list_all (\<lambda>c. isGoInt (Experience c)) candidates"
  shows "readCandidates (csvOutput candidates) = Some candidates"
proof -
  from assms have "those (map candidateOfRow (map row candidates)) = Some candidates"
    by (induction candidates) (simp_all add: candidateOfRow_row)
  then show ?thesis
    by (simp add: readCandidates_def parseCSV_csvOutput)
qed

lemma header_line: "csvWrite header = ''Name,Email,Phone,Profile URL,Experience'' @ [LF]"
  by (simp add: csvWrite_def header_def writeField_def fieldNeedsQuotes_def firstRuneIsSpace_def
      isSpaceASCII_def isSpace2_def isSpace3_def comma_def dquote_def LF_def CR_def)

lemma writeRows_result:
  "fst (writeRows w filename k out cs) = None \<longleftrightarrow>
     (\<forall>i < length cs. writerWrite w filename (k + i) = None)"
  "fst (writeRows w filename k out cs) = None \<Longrightarrow>
     snd (writeRows w filename k out cs) =
       foldl (\<lambda>out candidate. out @ csvWrite (row candidate)) out cs"
proof (induction cs arbitrary: k out)
  case Nil
  {
    case 1
    show ?case by simp
  next
    case 2
    show ?case by simp
  }
next
  case (Cons c cs)
  {
    case 1
    show ?case
    proof (cases "writerWrite w filename k")
      case (Some err)
      then show ?thesis by auto
    next
      case None
      have "(\<forall>i < length (c # cs). writerWrite w filename (k + i) = None) \<longleftrightarrow>
            (\<forall>i < length cs. writerWrite w filename (k + 1 + i) = None)"
        using None by (auto simp add: less_Suc_eq_0_disj)
      with None Cons.IH(1) [of "k + 1" "out @ csvWrite (row c)"] show ?thesis by simp
    qed
  next
    case 2
    then show ?case
      using Cons.IH(2) [of "k + 1" "out @ csvWrite (row c)"]
      by (cases "writerWrite w filename k") simp_all
  }
qed

lemma writeToCSV_returns_nil:
  assumes "fst (writeToCSV w candidates filename st) = None"
  shows "osCreate w filename = None \<and> writerWrite w filename 0 = None \<and>
         fst (writeRows w filename 1 (csvWrite header) candidates) = None \<and>
         files (snd (writeToCSV w candidates filename st)) filename =
           Some (leftInFile w filename False (csvOutput candidates))"
proof -
  from assms have c: "osCreate w filename = None" and h: "writerWrite w filename 0 = None"
    by (auto simp add: writeToCSV_def split: option.splits prod.splits)
  with assms have r: "fst (writeRows w filename 1 (csvWrite header) candidates) = None"
    by (auto simp add: writeToCSV_def split: option.splits prod.splits)
  from writeRows_result(2) [OF r]
  have "snd (writeRows w filename 1 (csvWrite header) candidates) = csvOutput candidates"
    by (simp add: csvOutput_def)
  with c h r show ?thesis
    by (cases "writeRows w filename 1 (csvWrite header) candidates")
       (simp add: writeToCSV_def)
qed

lemma writeToCSV_all_written:
  assumes "osCreate w filename = None"
    and "\<forall>k \<le> length candidates. writerWrite w filename k = None"
  shows "fst (writeToCSV w candidates filename st) = None"
proof -
  from assms(2) have h: "writerWrite w filename 0 = None" by simp
  from assms(2) have "\<forall>i < length candidates. writerWrite w filename (1 + i) = None" by simp
  then have "fst (writeRows w filename 1 (csvWrite header) candidates) = None"
    by (simp add: writeRows_result(1))
  with assms(1) h show ?thesis
    by (cases "writeRows w filename 1 (csvWrite header) candidates")
       (simp add: writeToCSV_def)
qed

text \<open>
  The error returns of \<open>writeToCSV\<close> on a disk that is full: a failed write of the
  header and a failed write of a row are returned, wrapped, and the file keeps the bytes it
  had taken; a failed deferred \<open>Flush\<close> is not seen, so \<open>writeToCSV\<close> returns \<open>nil\<close> over
  a file that holds a part of the output only.
\<close>

lemma writeToCSV_error_paths:
  "fst (writeToCSV (diskFullAt 0 0) [johnEnriched] outputFilename emptyState) =
     Some (FailedToWriteHeaderRow diskFull) \<and>
   fst (writeToCSV (diskFullAt 1 10) [johnEnriched] outputFilename emptyState) =
     Some (FailedToWriteDataRow diskFull) \<and>
   files (snd (writeToCSV (diskFullAt 1 10) [johnEnriched] outputFilename emptyState))
     outputFilename = Some ''Name,Email'' \<and>
   fst (writeToCSV (flushFails 10) [johnEnriched] outputFilename emptyState) = None \<and>
   files (snd (writeToCSV (flushFails 10) [johnEnriched] outputFilename emptyState))
     outputFilename = Some ''Name,Email''"
  by (simp add: writeToCSV_def leftInFile_def diskFullAt_def flushFails_def scripted_def
      emptyState_def csvWrite_def header_def writeField_def fieldNeedsQuotes_def
      firstRuneIsSpace_def isSpaceASCII_def isSpace2_def isSpace3_def comma_def dquote_def
      LF_def CR_def)

text \<open>
  Claim C8. The output for \<open>K\<close> records is the header line
  \<open>Name,Email,Phone,Profile URL,Experience\<close> followed by the lines of \<open>K\<close> rows; read
  back, it gives the header row and the \<open>K\<close> rows of the records, field by field, and the
  rows read as Candidates are the records themselves, the decimal text of Experience
  giving back the integer. \<open>writeToCSV\<close> returns \<open>nil\<close> when the file is created and no
  call of \<open>writer.Write\<close> fails, and whenever it returns \<open>nil\<close> and the deferred flush
  does not fail, this output is the content of the file. The records are any records
  whose Experience is a value of Go's \<open>int\<close>.
\<close>

theorem csv_round_trip:
  assumes "list_all (\<lambda>c. isGoInt (Experience c)) candidates"
  shows "csvWrite header = ''Name,Email,Phone,Profile URL,Experience'' @ [LF] \<and>
         parseCSV (csvOutput candidates) = Some (header # map row candidates) \<and>
         length (map row candidates) = length candidates \<and>
         readCandidates (csvOutput candidates) = Some candidates \<and>
         (osCreate w filename = None \<and>
          (\<forall>k \<le> length candidates. writerWrite w filename k = None) \<longrightarrow>
            fst (writeToCSV w candidates filename st) = None) \<and>
         (fst (writeToCSV w candidates filename st) = None \<and> writerFlush w filename = None \<longrightarrow>
            files (snd (writeToCSV w candidates filename st)) filename =
              Some (csvOutput candidates))"
proof -
  have 5: "osCreate w filename = None \<and>
          (\<forall>k \<le> length candidates. writerWrite w filename k = None) \<longrightarrow>
            fst (writeToCSV w candidates filename st) = None"
    using writeToCSV_all_written [of w filename candidates st] by blast
  have 6: "fst (writeToCSV w candidates filename st) = None \<and> writerFlush w filename = None \<longrightarrow>
            files (snd (writeToCSV w candidates filename st)) filename =
              Some (csvOutput candidates)"
    using writeToCSV_returns_nil [of w candidates filename st] by (simp add: leftInFile_def)
  from readCandidates_csvOutput [OF assms] parseCSV_csvOutput [of candidates] header_line 5 6
  show ?thesis by simp
qed

theorem csv_round_trip_witness:
  "isGoInt 7 \<and> isGoInt 12 \<and>
   csvOutput [johnEnriched, annQuoted] =
     ''Name,Email,Phone,Profile URL,Experience'' @ [LF] @
     [dquote] @ ''Doe, John'' @ [dquote] @
       '',john@doe.org,555-123-4567,https://www.linkedin.com/in/john-doe,7'' @ [LF] @
     [dquote] @ ''Ann '' @ [dquote, dquote] @ ''A'' @ [dquote, dquote] @ [dquote] @ '',,'' @
       [dquote] @ '' 555 123 4567'' @ [dquote] @ '',https://www.linkedin.com/in/ann,12'' @ [LF] \<and>
   parseCSV (csvOutput [johnEnriched, annQuoted]) =
     Some [[''Name'', ''Email'', ''Phone'', ''Profile URL'', ''Experience''],
           [''Doe, John'', ''john@doe.org'', ''555-123-4567'', johnURL, ''7''],
           [''Ann '' @ [dquote] @ ''A'' @ [dquote], [], '' 555 123 4567'', annURL, ''12'']] \<and>
   readCandidates (csvOutput [johnEnriched, annQuoted]) = Some [johnEnriched, annQuoted] \<and>
   fst (writeToCSV (scripted None [] (Responded 200 []) (parserReturning emptyDocument))
          [johnEnriched, annQuoted] outputFilename emptyState) = None \<and>
   files (snd (writeToCSV (scripted None [] (Responded 200 []) (parserReturning emptyDocument))
                 [johnEnriched, annQuoted] outputFilename emptyState)) outputFilename =
     Some (csvOutput [johnEnriched, annQuoted])"
proof -
  have g: "isGoInt 7" "isGoInt 12" by (simp_all add: isGoInt_def minInt_def maxInt_def)
  then have a: "list_all (\<lambda>c. isGoInt (Experience c)) [johnEnriched, annQuoted]"
    by (simp add: johnEnriched_def annQuoted_def)
  have i: "Itoa 7 = ''7''" "Itoa 12 = ''12''"
    by (simp_all add: Itoa_def natDigits.simps digitChar_def)
  have o: "csvOutput [johnEnriched, annQuoted] =
     ''Name,Email,Phone,Profile URL,Experience'' @ [LF] @
     [dquote] @ ''Doe, John'' @ [dquote] @
       '',john@doe.org,555-123-4567,https://www.linkedin.com/in/john-doe,7'' @ [LF] @
     [dquote] @ ''Ann '' @ [dquote, dquote] @ ''A'' @ [dquote, dquote] @ [dquote] @ '',,'' @
       [dquote] @ '' 555 123 4567'' @ [dquote] @ '',https://www.linkedin.com/in/ann,12'' @ [LF]"
    by (simp add: csvOutput_def csvWrite_def header_def row_def i johnEnriched_def annQuoted_def
        johnURL_def annURL_def writeField_def quoteField_def fieldNeedsQuotes_def
        firstRuneIsSpace_def isSpaceASCII_def isSpace2_def isSpace3_def comma_def dquote_def
        LF_def CR_def)
  have c: "osCreate (scripted None [] (Responded 200 []) (parserReturning emptyDocument))
             outputFilename = None"
    "\<forall>k \<le> length [johnEnriched, annQuoted].
       writerWrite (scripted None [] (Responded 200 []) (parserReturning emptyDocument))
         outputFilename k = None"
    "writerFlush (scripted None [] (Responded 200 []) (parserReturning emptyDocument))
       outputFilename = None"
    by (simp_all add: scripted_def)
  show ?thesis
    using g o c csv_round_trip [OF a, of "scripted None [] (Responded 200 []) (parserReturning emptyDocument)"
        outputFilename emptyState]
    by (simp add: header_def row_def i johnEnriched_def annQuoted_def)
qed

subsection \<open>Where the fetches do stop\<close>

lemma fetchAttempt_transportError:
  assumes "NewRequest w pageURL = None"
    and "\<forall>req. clientDo w (sent st) req = TransportError e"
  shows "\<exists>st'. fetchAttempt w pageURL vars st = (Continue, (None, Some e), st') \<and>
               sent st' = sent st + 1 \<and>
               logsOf (trace st') = logsOf (trace st) @ [ErrorFetchingPage e retryDelay]"
  using assms getHeaders_state [of w st]
  by (simp add: fetchAttempt_def Do_request_def emit_def split_def logsOf_append Let_def)

lemma before_fetch_state:
  "sent (emit (Sleep d) (emit (Print m) (snd (randomDelay w (emit (Print m') st))))) = sent st \<and>
   logsOf (trace (emit (Sleep d) (emit (Print m) (snd (randomDelay w (emit (Print m') st)))))) =
     logsOf (trace st)"
  by (simp add: randomDelay_def Intn_def emit_def split_def logsOf_append)

text \<open>
  When the three attempts of a page fetch all end in a transport error, \<open>err\<close> is set
  after the loop: the driver logs the failed fetch, parses nothing and leaves the
  accumulated records as they are.
\<close>

theorem page_skipped_after_three_transport_errors:
  assumes req: "NewRequest w (pageURLOf searchURL page) = None"
    and r1: "\<forall>req. clientDo w (sent st) req = TransportError e1"
    and r2: "\<forall>req. clientDo w (sent st + 1) req = TransportError e2"
    and r3: "\<forall>req. clientDo w (sent st + 2) req = TransportError e3"
  shows "fst (scrapePage w searchURL page allCandidates st) = Some allCandidates \<and>
         sent (snd (scrapePage w searchURL page allCandidates st)) = sent st + 3 \<and>
         logsOf (trace (snd (scrapePage w searchURL page allCandidates st))) =
           logsOf (trace st) @
           [ErrorFetchingPage e1 retryDelay, ErrorFetchingPage e2 retryDelay,
            ErrorFetchingPage e3 retryDelay, FailedToFetchPage (page + 1) e3]"
proof -
  let ?url = "pageURLOf searchURL page"
  let ?d = "fst (randomDelay w (emit (Print (ScrapingGooglePage (page + 1))) st))"
  let ?st0 = "emit (Sleep ?d) (emit (Print (WaitingBeforePage ?d (page + 1)))
                (snd (randomDelay w (emit (Print (ScrapingGooglePage (page + 1))) st))))"
  have s0: "sent ?st0 = sent st" and l0: "logsOf (trace ?st0) = logsOf (trace st)"
    using before_fetch_state by auto
  from r1 s0 have r1': "\<forall>req. clientDo w (sent ?st0) req = TransportError e1" by simp
  from fetchAttempt_transportError [OF req r1', of "(None, None)"] obtain st1 where
    a1: "fetchAttempt w ?url (None, None) ?st0 = (Continue, (None, Some e1), st1)"
    and s1: "sent st1 = sent ?st0 + 1"
    and l1: "logsOf (trace st1) = logsOf (trace ?st0) @ [ErrorFetchingPage e1 retryDelay]"
    by auto
  from r2 s0 s1 have r2': "\<forall>req. clientDo w (sent st1) req = TransportError e2" by simp
  from fetchAttempt_transportError [OF req r2', of "(None, Some e1)"] obtain st2 where
    a2: "fetchAttempt w ?url (None, Some e1) st1 = (Continue, (None, Some e2), st2)"
    and s2: "sent st2 = sent st1 + 1"
    and l2: "logsOf (trace st2) = logsOf (trace st1) @ [ErrorFetchingPage e2 retryDelay]"
    by auto
  from r3 s0 s1 s2 have r3': "\<forall>req. clientDo w (sent st2) req = TransportError e3" by simp
  from fetchAttempt_transportError [OF req r3', of "(None, Some e2)"] obtain st3 where
    a3: "fetchAttempt w ?url (None, Some e2) st2 = (Continue, (None, Some e3), st3)"
    and s3: "sent st3 = sent st2 + 1"
    and l3: "logsOf (trace st3) = logsOf (trace st2) @ [ErrorFetchingPage e3 retryDelay]"
    by auto
  have f: "fetchPage w ?url ?st0 = ((None, Some e3), st3)"
    by (simp only: fetchPage_unfold fetchLoop.simps a1 a2 a3 prod.case control.case)
  have "scrapePage w searchURL page allCandidates st =
          (Some allCandidates, emit (Log (FailedToFetchPage (page + 1) e3)) st3)"
    unfolding scrapePage_def Let_def split_def f by simp
  with s0 s1 s2 s3 l0 l1 l2 l3 show ?thesis
    by (simp add: emit_def logsOf_append)
qed

theorem page_skipped_after_three_transport_errors_witness:
  "fst (scrapePage (scripted None [] (TransportError (External ''timeout''))
                      (parserReturning samplePage)) searchURL0 0 [] emptyState) = Some [] \<and>
   sent (snd (scrapePage (scripted None [] (TransportError (External ''timeout''))
                      (parserReturning samplePage)) searchURL0 0 [] emptyState)) = 3 \<and>
   logsOf (trace (snd (scrapePage (scripted None [] (TransportError (External ''timeout''))
                      (parserReturning samplePage)) searchURL0 0 [] emptyState))) =
     [ErrorFetchingPage (External ''timeout'') 5, ErrorFetchingPage (External ''timeout'') 5,
      ErrorFetchingPage (External ''timeout'') 5, FailedToFetchPage 1 (External ''timeout'')]"
proof -
  let ?W = "scripted None [] (TransportError (External ''timeout'')) (parserReturning samplePage)"
  have h0: "NewRequest ?W (pageURLOf searchURL0 0) = None" by (simp add: scripted_def)
  have h1: "\<forall>req. clientDo ?W (sent emptyState) req = TransportError (External ''timeout'')"
    by (simp add: scripted_def)
  have h2: "\<forall>req. clientDo ?W (sent emptyState + 1) req = TransportError (External ''timeout'')"
    by (simp add: scripted_def)
  have h3: "\<forall>req. clientDo ?W (sent emptyState + 2) req = TransportError (External ''timeout'')"
    by (simp add: scripted_def)
  show ?thesis
    using page_skipped_after_three_transport_errors [OF h0 h1 h2 h3, of "[]"]
    by (simp add: emptyState_def retryDelay_def)
qed

text \<open>
  A profile fetch answered 429 or 302 returns the error \<open>CaptchaOrRateLimit\<close>, which no
  other path of \<open>scrapeProfileDetails\<close> returns, after a single request: the function has
  no retry loop.
\<close>

theorem profile_fetch_blocked_without_retry:
  assumes "NewRequest w profileURL = None"
    and "\<forall>req. clientDo w (sent st) req = Responded code body"
    and "code = 429 \<or> code = 302"
  shows "fst (scrapeProfileDetails w profileURL st) =
           (\<lparr>Name = [], Email = [], Phone = [], ProfileURL = profileURL, Experience = 0\<rparr>,
            Some CaptchaOrRateLimit) \<and>
         sent (snd (scrapeProfileDetails w profileURL st)) = sent st + 1 \<and>
         logsOf (trace (snd (scrapeProfileDetails w profileURL st))) =
           logsOf (trace st) @ [EncounteredCaptcha]"
proof -
  let ?st2 = "emit (Sleep (fst (randomDelay w st))) (snd (randomDelay w st))"
  have s2: "sent ?st2 = sent st" and l2: "logsOf (trace ?st2) = logsOf (trace st)"
    by (simp_all add: randomDelay_def Intn_def emit_def split_def logsOf_append)
  from getHeaders_state [of w ?st2] s2 l2
  have h: "sent (snd (getHeaders w ?st2)) = sent st"
    "logsOf (trace (snd (getHeaders w ?st2))) = logsOf (trace st)" by auto
  from assms h show ?thesis
    by (auto simp add: scrapeProfileDetails_def Do_request_def emit_def split_def Let_def
        logsOf_append)
qed

theorem profile_fetch_blocked_without_retry_witness:
  "fst (scrapeProfileDetails (scripted None [Responded 302 []] (Responded 200 ''<html>'')
                                (parserReturning sampleProfile)) johnURL emptyState) =
     (\<lparr>Name = [], Email = [], Phone = [], ProfileURL = johnURL, Experience = 0\<rparr>,
      Some CaptchaOrRateLimit) \<and>
   sent (snd (scrapeProfileDetails (scripted None [Responded 302 []] (Responded 200 ''<html>'')
                                (parserReturning sampleProfile)) johnURL emptyState)) = 1 \<and>
   logsOf (trace (snd (scrapeProfileDetails (scripted None [Responded 302 []]
                                (Responded 200 ''<html>'')
                                (parserReturning sampleProfile)) johnURL emptyState))) =
     [EncounteredCaptcha]"
proof -
  let ?W = "scripted None [Responded 302 []] (Responded 200 ''<html>'')
              (parserReturning sampleProfile)"
  have h0: "NewRequest ?W johnURL = None" by (simp add: scripted_def)
  have h1: "\<forall>req. clientDo ?W (sent emptyState) req = Responded 302 []"
    by (simp add: scripted_def emptyState_def)
  have h2: "(302::int) = 429 \<or> (302::int) = 302" by simp
  show ?thesis
    using profile_fetch_blocked_without_retry [OF h0 h1 h2]
    by (simp add: emptyState_def)
qed

subsection \<open>Which containers give a record\<close>

text \<open>
  The guard of the closure looks at the first element that the profile-link selector
  finds in the container, and at no other: it holds exactly when the container has such
  an element and the canonical pattern matches somewhere in the \<open>href\<close> of the first one.
\<close>

lemma wellFormed_firstLinkCanonical: "wellFormed c = firstLinkCanonical c"
proof
  assume "wellFormed c"
  then obtain href m where a: "Attr (profileLinkHrefs c) = Some href"
    and f: "FindStringSubmatch profileLinkRegex href = Some m"
    by (auto simp add: wellFormed_def split: option.splits)
  from a obtain rest where h: "profileLinkHrefs c = href # rest"
    by (auto simp add: Attr_def split: list.splits)
  from f have "findLeftmost profileLinkRegex href = Some m" by (simp add: FindStringSubmatch_def)
  from canonicalMatch_found [OF this] obtain pre where "canonicalMatch href pre (snd m)" by blast
  with h show "firstLinkCanonical c" unfolding firstLinkCanonical_def by blast
next
  assume "firstLinkCanonical c"
  then obtain href rest pre m where h: "profileLinkHrefs c = href # rest"
    and cm: "canonicalMatch href pre m"
    unfolding firstLinkCanonical_def by blast
  from canonicalMatch_exists [OF cm] h show "wellFormed c"
    by (simp add: wellFormed_def Attr_def)
qed

text \<open>
  Claim C3, in the form in which it holds. The records of a document are the records of
  its containers, in document order, and extraction returns no error. A container gives
  one record when the \<open>href\<close> of its first profile-link element has a match of the
  canonical pattern, and no record otherwise: when it has no profile-link element, and
  also when its first profile-link element has no match, whatever its later ones are. So
  the number of records is the number of containers whose first link has a match. A
  record of a container without a name element has the empty string as Name.
\<close>

theorem extraction_emits_first_link_canonical_in_order:
  "fst (scrapeGoogleSearchResults doc) =
     concat (map (\<lambda>c. fst (scrapeGoogleSearchResults (single c))) (resultContainers doc)) \<and>
   snd (scrapeGoogleSearchResults doc) = None \<and>
   length (fst (scrapeGoogleSearchResults doc)) =
     length (filter firstLinkCanonical (resultContainers doc)) \<and>
   (firstLinkCanonical c \<longrightarrow> length (fst (scrapeGoogleSearchResults (single c))) = 1) \<and>
   (\<not> firstLinkCanonical d \<longrightarrow> fst (scrapeGoogleSearchResults (single d)) = []) \<and>
   (profileLinkHrefs d' = [] \<longrightarrow> fst (scrapeGoogleSearchResults (single d')) = []) \<and>
   (firstLinkCanonical e \<and> nameTexts e = [] \<longrightarrow>
      map Name (fst (scrapeGoogleSearchResults (single e))) = [[]])"
proof -
  have 1: "fst (scrapeGoogleSearchResults doc) =
     concat (map (\<lambda>c. fst (scrapeGoogleSearchResults (single c))) (resultContainers doc))"
    unfolding scrape_single by (simp add: scrape_concat)
  have 2: "snd (scrapeGoogleSearchResults doc) = None"
    by (simp add: scrapeGoogleSearchResults_def)
  have "firstLinkCanonical = wellFormed"
    by (rule ext) (simp add: wellFormed_firstLinkCanonical)
  then have 3: "length (fst (scrapeGoogleSearchResults doc)) =
             length (filter firstLinkCanonical (resultContainers doc))"
    by (simp add: scrape_concat scrape_length)
  have 4: "firstLinkCanonical c \<longrightarrow> length (fst (scrapeGoogleSearchResults (single c))) = 1"
    by (simp add: scrape_single eachContainer_length wellFormed_firstLinkCanonical)
  have 5: "\<not> firstLinkCanonical d \<longrightarrow> fst (scrapeGoogleSearchResults (single d)) = []"
    by (simp add: scrape_single eachContainer_not_wellFormed wellFormed_firstLinkCanonical)
  have 6: "profileLinkHrefs d' = [] \<longrightarrow> fst (scrapeGoogleSearchResults (single d')) = []"
    by (simp add: scrape_single eachContainer_def Attr_def)
  have 7: "firstLinkCanonical e \<and> nameTexts e = [] \<longrightarrow>
      map Name (fst (scrapeGoogleSearchResults (single e))) = [[]]"
    using eachContainer_wellFormed [of e]
    by (auto simp add: scrape_single Text_def TrimSpace_Nil wellFormed_firstLinkCanonical)
  from 1 2 3 4 5 6 7 show ?thesis by blast
qed

lemma annHref_match: "canonicalMatch ''https://www.linkedin.com/in/ann?trk=x'' [] annURL"
  unfolding canonicalMatch_def
  by (intro exI [of _ "''ann''"] exI [of _ "''?trk=x''"])
     (simp add: annURL_def notDelim_def isDelim_def)

lemma annURL_match: "canonicalMatch ''https://www.linkedin.com/in/ann'' [] annURL"
  unfolding canonicalMatch_def
  by (intro exI [of _ "''ann''"] exI [of _ "[]"])
     (simp add: annURL_def notDelim_def isDelim_def)

lemma sample_first_link:
  "firstLinkCanonical johnContainer" "firstLinkCanonical annContainer"
  "\<not> firstLinkCanonical noLinkContainer" "\<not> firstLinkCanonical secondLinkContainer"
  "\<not> firstLinkCanonical foreignContainer"
proof -
  show "firstLinkCanonical johnContainer"
    unfolding firstLinkCanonical_def
    using johnHref_match by (auto simp add: johnContainer_def johnHref_def)
  show "firstLinkCanonical annContainer"
    unfolding firstLinkCanonical_def
    using annHref_match by (auto simp add: annContainer_def)
  show "\<not> firstLinkCanonical noLinkContainer"
    by (simp add: firstLinkCanonical_def noLinkContainer_def)
  show "\<not> firstLinkCanonical secondLinkContainer"
    using foreign_no_match by (simp add: firstLinkCanonical_def secondLinkContainer_def)
  show "\<not> firstLinkCanonical foreignContainer"
    using foreign_no_match by (simp add: firstLinkCanonical_def foreignContainer_def)
qed

theorem extraction_emits_first_link_canonical_in_order_witness:
  "firstLinkCanonical johnContainer \<and> \<not> firstLinkCanonical secondLinkContainer \<and>
   profileLinkHrefs noLinkContainer = [] \<and>
   firstLinkCanonical annContainer \<and> nameTexts annContainer = [] \<and>
   length (fst (scrapeGoogleSearchResults (single johnContainer))) = 1 \<and>
   fst (scrapeGoogleSearchResults (single secondLinkContainer)) = [] \<and>
   fst (scrapeGoogleSearchResults (single noLinkContainer)) = [] \<and>
   map Name (fst (scrapeGoogleSearchResults (single annContainer))) = [[]] \<and>
   length (filter firstLinkCanonical (resultContainers samplePage)) = 2 \<and>
   fst (scrapeGoogleSearchResults samplePage) =
     [\<lparr>Name = ''John Doe'', Email = ''j.doe@acme.com'', Phone = ''(555) 123-4567'',
       ProfileURL = johnURL, Experience = 0\<rparr>,
      \<lparr>Name = [], Email = [], Phone = [], ProfileURL = annURL, Experience = 12\<rparr>]"
proof -
  have n: "nameTexts annContainer = []" "profileLinkHrefs noLinkContainer = []"
    by (simp_all add: annContainer_def noLinkContainer_def)
  have f: "filter firstLinkCanonical (resultContainers samplePage) = [johnContainer, annContainer]"
    using sample_first_link by (simp add: samplePage_def)
  show ?thesis
    using sample_first_link n f sample_scrape
      extraction_emits_first_link_canonical_in_order
        [of samplePage johnContainer secondLinkContainer noLinkContainer annContainer]
    by simp
qed

text \<open>
  Claim C3 as it is stated gives a record to every container with a matching canonical
  profile link, and skips the containers without a profile link. A container whose second
  profile-link element is canonical and whose first is not has a canonical link and is not
  without a link, and it gives no record; neither does a container whose only profile-link
  element points to another host. The page of these two and one more container has two
  containers with a canonical link and none without a link, and gives one record.
\<close>

theorem canonical_link_without_record:
  "hasCanonicalLink johnContainer \<and> hasCanonicalLink secondLinkContainer \<and>
   profileLinkHrefs secondLinkContainer \<noteq> [] \<and> profileLinkHrefs foreignContainer \<noteq> [] \<and>
   fst (scrapeGoogleSearchResults (single secondLinkContainer)) = [] \<and>
   fst (scrapeGoogleSearchResults (single foreignContainer)) = [] \<and>
   length (filter hasCanonicalLink (resultContainers twoLinkPage)) = 2 \<and>
   length (filter (\<lambda>c. profileLinkHrefs c = []) (resultContainers twoLinkPage)) = 0 \<and>
   length (fst (scrapeGoogleSearchResults twoLinkPage)) = 1"
proof -
  have j: "hasCanonicalLink johnContainer"
    unfolding hasCanonicalLink_def
    using johnHref_match by (auto simp add: johnContainer_def johnHref_def)
  have s: "hasCanonicalLink secondLinkContainer"
    unfolding hasCanonicalLink_def
    using annURL_match by (auto simp add: secondLinkContainer_def)
  have f: "\<not> hasCanonicalLink foreignContainer"
    using foreign_no_match by (simp add: hasCanonicalLink_def foreignContainer_def)
  have e: "fst (scrapeGoogleSearchResults (single secondLinkContainer)) = []"
    "fst (scrapeGoogleSearchResults (single foreignContainer)) = []"
    using sample_first_link
    by (simp_all add: scrape_single eachContainer_not_wellFormed wellFormed_firstLinkCanonical)
  have l: "length (fst (scrapeGoogleSearchResults twoLinkPage)) = 1"
    using sample_first_link
    by (simp add: scrape_concat twoLinkPage_def eachContainer_length wellFormed_firstLinkCanonical)
  from j s f e l show ?thesis
    by (simp add: twoLinkPage_def secondLinkContainer_def foreignContainer_def johnContainer_def)
qed

end
